theory Spec2Isabelle
  imports Main "HOL-Library.AList" "HOL-Library.Word"
begin

section \<open>Byte strings, base64 and decimal integers\<close>

text \<open>
  The image of a post is a \<^verbatim>\<open>BytesIO\<close>; every reader of the source rewinds it with
  \<^verbatim>\<open>seek(0)\<close> before \<^verbatim>\<open>read()\<close>, so it is modelled by its content, a list of bytes.
\<close>

type_synonym bytes = "8 word list"

datatype exn =
    KeyError string
  | ValueError string
  | BinasciiError string
  | TypeError string
  | ApiError string

text \<open>
  \<^verbatim>\<open>base64.b64encode\<close>: three bytes become four characters of the standard alphabet,
  one or two trailing bytes are padded with \<^verbatim>\<open>=\<close>. The shifts and masks of the encoder
  are written with \<open>div\<close> and \<open>mod\<close> on the unsigned value of the byte.
\<close>

definition b64_alphabet :: string where
  "b64_alphabet = ''ABCDEFGHIJKLMNOPQRSTUVWXYZabcdefghijklmnopqrstuvwxyz0123456789+/''"

definition b2a :: "nat \<Rightarrow> char" where
  "b2a n = b64_alphabet ! n"

fun index_of :: "'a list \<Rightarrow> 'a \<Rightarrow> nat option" where
  "index_of [] y = None"
| "index_of (x # xs) y = (if x = y then Some 0 else map_option Suc (index_of xs y))"

definition a2b :: "char \<Rightarrow> nat option" where
  "a2b c = index_of b64_alphabet c"

fun b64encode :: "bytes \<Rightarrow> string" where
  "b64encode [] = []"
| "b64encode [a] =
     [b2a (unat a div 4), b2a (unat a mod 4 * 16), CHR ''='', CHR ''='']"
| "b64encode [a, b] =
     [b2a (unat a div 4), b2a (unat a mod 4 * 16 + unat b div 16),
      b2a (unat b mod 16 * 4), CHR ''='']"
| "b64encode (a # b # c # rest) =
     [b2a (unat a div 4), b2a (unat a mod 4 * 16 + unat b div 16),
      b2a (unat b mod 16 * 4 + unat c div 64), b2a (unat c mod 64)] @ b64encode rest"

text \<open>
  \<^verbatim>\<open>binascii.a2b_base64\<close> in its default, non-strict mode, as \<^verbatim>\<open>base64.b64decode\<close>
  calls it: characters outside the alphabet are skipped, a pad that completes a quad
  ends the input, and leftover sextets at the end of the input are an error. The state
  of the C loop is \<open>quad_pos\<close>, \<open>leftchar\<close>, \<open>pads\<close> and the output written so far.
\<close>

fun a2b_base64 :: "string \<Rightarrow> nat \<Rightarrow> nat \<Rightarrow> nat \<Rightarrow> bytes \<Rightarrow> exn + bytes" where
  "a2b_base64 [] quad_pos leftchar pads out =
     (if quad_pos \<noteq> 0
      then (if quad_pos = 1 then Inl (BinasciiError ''Invalid base64-encoded string'')
            else Inl (BinasciiError ''Incorrect padding''))
      else Inr out)"
| "a2b_base64 (c # cs) quad_pos leftchar pads out =
     (if c = CHR ''='' then
        (if 2 \<le> quad_pos \<and> 4 \<le> quad_pos + (pads + 1) then Inr out
         else a2b_base64 cs quad_pos leftchar (if 2 \<le> quad_pos then pads + 1 else pads) out)
      else (case a2b c of
        None \<Rightarrow> a2b_base64 cs quad_pos leftchar pads out
      | Some v \<Rightarrow>
          (if quad_pos = 0 then a2b_base64 cs 1 v 0 out
           else if quad_pos = 1 then
             a2b_base64 cs 2 (v mod 16) 0 (out @ [of_nat (leftchar * 4 + v div 16)])
           else if quad_pos = 2 then
             a2b_base64 cs 3 (v mod 4) 0 (out @ [of_nat (leftchar * 16 + v div 4)])
           else a2b_base64 cs 0 0 0 (out @ [of_nat (leftchar * 64 + v)]))))"

text \<open>
  \<^verbatim>\<open>base64.b64decode(s)\<close> on a \<^verbatim>\<open>str\<close>: the string is first encoded as ASCII, which
  raises \<^verbatim>\<open>ValueError\<close> on any other character.
\<close>

definition b64decode :: "string \<Rightarrow> exn + bytes" where
  "b64decode s =
     (if list_all (\<lambda>c. (of_char c :: nat) < 128) s then a2b_base64 s 0 0 0 []
      else Inl (ValueError ''string argument should contain only ASCII characters''))"

text \<open>\<^verbatim>\<open>str(n)\<close> of an integer: its decimal digits, with a minus sign when negative.\<close>

definition digit_char :: "nat \<Rightarrow> char" where
  "digit_char d = ''0123456789'' ! d"

function str_nat :: "nat \<Rightarrow> string" where
  "str_nat n = (if n < 10 then [digit_char n] else str_nat (n div 10) @ [digit_char (n mod 10)])"
  by pat_completeness auto
termination
  by (relation "measure id") auto

declare str_nat.simps [simp del]

definition str_int :: "int \<Rightarrow> string" where
  "str_int i = (if i < 0 then CHR ''-'' # str_nat (nat (- i)) else str_nat (nat i))"

text \<open>
  A character is a code point below 256; strings with other code points are outside
  the model. \<^verbatim>\<open>str.strip()\<close> removes the characters for which \<^verbatim>\<open>str.isspace()\<close> holds.
  \<^verbatim>\<open>int(s)\<close> skips less: the ASCII white space of C, and the white space beyond ASCII,
  but not the separators U+001C to U+001F. It then reads an optional sign and decimal
  digits, where single underscores may stand between two digits; everything else raises
  \<^verbatim>\<open>ValueError\<close>.
\<close>

definition is_space :: "char \<Rightarrow> bool" where
  "is_space c =
     ((of_char c :: nat) \<in> set [9, 10, 11, 12, 13, 28, 29, 30, 31, 32, 0x85, 0xA0])"

definition strip :: "string \<Rightarrow> string" where
  "strip s = rev (dropWhile is_space (rev (dropWhile is_space s)))"

definition is_int_space :: "char \<Rightarrow> bool" where
  "is_int_space c = ((of_char c :: nat) \<in> set [9, 10, 11, 12, 13, 32, 0x85, 0xA0])"

definition int_strip :: "string \<Rightarrow> string" where
  "int_strip s = rev (dropWhile is_int_space (rev (dropWhile is_int_space s)))"

definition is_digit :: "char \<Rightarrow> bool" where
  "is_digit c = (48 \<le> (of_char c :: nat) \<and> (of_char c :: nat) \<le> 57)"

definition digit_val :: "char \<Rightarrow> nat" where
  "digit_val c = of_char c - 48"

fun parse_digits :: "string \<Rightarrow> nat \<Rightarrow> bool \<Rightarrow> nat option" where
  "parse_digits [] acc prev_digit = (if prev_digit then Some acc else None)"
| "parse_digits (c # cs) acc prev_digit =
     (if is_digit c then parse_digits cs (acc * 10 + digit_val c) True
      else if c = CHR ''_'' \<and> prev_digit then parse_digits cs acc False
      else None)"

definition int_of_str :: "string \<Rightarrow> exn + int" where
  "int_of_str s =
     (case (case int_strip s of
              [] \<Rightarrow> None
            | c # cs \<Rightarrow>
                if c = CHR ''-'' then map_option (\<lambda>n. - int n) (parse_digits cs 0 False)
                else if c = CHR ''+'' then map_option int (parse_digits cs 0 False)
                else map_option int (parse_digits (c # cs) 0 False)) of
        None \<Rightarrow> Inl (ValueError ''invalid literal for int() with base 10'')
      | Some i \<Rightarrow> Inr i)"

section \<open>storage.py: the record store\<close>

text \<open>
  \<^verbatim>\<open>PostData\<close>. The dataclass declares \<^verbatim>\<open>text: str\<close>, but the handlers store
  \<^verbatim>\<open>update.message.text\<close> in it, which is \<^verbatim>\<open>None\<close> for a message without text, so the
  field is optional here as it is at run time.
\<close>

record PostData =
  text' :: "string option"
  image' :: bytes
  chat_id :: int
  original_text :: "string option"
  message_id :: "int option"

text \<open>
  The snapshot file. \<^verbatim>\<open>json.load\<close> raises, or returns something that is not a dict
  (then \<^verbatim>\<open>len(data)\<close> or \<^verbatim>\<open>data.items()\<close> raises before any entry is read): both are
  \<open>Unparseable\<close>. Or it returns a dict, kept in its order. The value of an entry is a
  dict (\<open>Object\<close>) or anything else (\<open>NotObject\<close>). In a dict every key may be absent
  (outer \<open>None\<close>); a value that is present has the JSON type the writer gives it (a
  string or \<^verbatim>\<open>null\<close> for the texts, a string for the image, a number or \<^verbatim>\<open>null\<close> for
  the ids).
\<close>

record post_dict =
  j_text :: "string option option"
  j_original_text :: "string option option"
  j_image_base64 :: "string option"
  j_chat_id :: "int option"
  j_message_id :: "int option option"

datatype entry = NotObject | Object post_dict

datatype snapshot = Unparseable | Parsed "(string \<times> entry) list"

text \<open>
  \<^verbatim>\<open>PostStorage\<close>: the dict \<^verbatim>\<open>_posts\<close> in insertion order (an assignment to a key that
  is present keeps its place, a new key goes to the end, which is \<open>AList.update\<close>), and
  the file named \<^verbatim>\<open>storage_file\<close> (\<open>None\<close> when it does not exist).
\<close>

record PostStorage =
  posts :: "(int \<times> PostData) list"
  storage_file :: "snapshot option"

text \<open>
  The body of the loop of \<^verbatim>\<open>_load_from_disk\<close> up to the assignment to \<^verbatim>\<open>_posts\<close>.
  Subscripting a value that is not a dict with \<^verbatim>\<open>'image_base64'\<close> raises \<^verbatim>\<open>TypeError\<close>.
\<close>

definition load_entry :: "string \<Rightarrow> entry \<Rightarrow> exn + PostData" where
  "load_entry chat_id_str post_dict =
     (case int_of_str chat_id_str of
        Inl e \<Rightarrow> Inl e
      | Inr cid \<Rightarrow>
          (case post_dict of
             NotObject \<Rightarrow> Inl (TypeError ''not subscriptable'')
           | Object pd \<Rightarrow>
               (case j_image_base64 pd of
                  None \<Rightarrow> Inl (KeyError ''image_base64'')
                | Some b64 \<Rightarrow>
                    (case b64decode b64 of
                       Inl e \<Rightarrow> Inl e
                     | Inr image_data \<Rightarrow>
                         (case j_text pd of
                            None \<Rightarrow> Inl (KeyError ''text'')
                          | Some t \<Rightarrow>
                              Inr \<lparr>text' = t, image' = image_data, chat_id = cid,
                                   original_text =
                                     (case j_original_text pd of None \<Rightarrow> None | Some v \<Rightarrow> v),
                                   message_id =
                                     (case j_message_id pd of None \<Rightarrow> None | Some v \<Rightarrow> v)\<rparr>)))))"

text \<open>
  The loop itself: it assigns into \<^verbatim>\<open>_posts\<close> entry by entry, so when an entry raises,
  the entries before it have already been stored. The result is the dict reached and the
  exception, if any.
\<close>

fun load_entries :: "(int \<times> PostData) list \<Rightarrow> (string \<times> entry) list
    \<Rightarrow> (int \<times> PostData) list \<times> exn option" where
  "load_entries ps [] = (ps, None)"
| "load_entries ps ((chat_id_str, pd) # rest) =
     (case load_entry chat_id_str pd of
        Inl e \<Rightarrow> (ps, Some e)
      | Inr post_data \<Rightarrow> load_entries (AList.update (chat_id post_data) post_data ps) rest)"

text \<open>
  \<^verbatim>\<open>_load_from_disk\<close>: any exception inside the \<^verbatim>\<open>try\<close> is caught and the file is
  removed; nothing resets \<^verbatim>\<open>_posts\<close> in the handler.
\<close>

definition load_from_disk :: "PostStorage \<Rightarrow> PostStorage" where
  "load_from_disk st =
     (case storage_file st of
        None \<Rightarrow> st
      | Some Unparseable \<Rightarrow> st\<lparr>storage_file := None\<rparr>
      | Some (Parsed data) \<Rightarrow>
          (case load_entries (posts st) data of
             (ps, None) \<Rightarrow> st\<lparr>posts := ps\<rparr>
           | (ps, Some e) \<Rightarrow> st\<lparr>posts := ps, storage_file := None\<rparr>))"

text \<open>\<^verbatim>\<open>PostStorage.__init__\<close>, given the file found on disk.\<close>

definition PostStorage_init :: "snapshot option \<Rightarrow> PostStorage" where
  "PostStorage_init file = load_from_disk \<lparr>posts = [], storage_file = file\<rparr>"

definition dump_entry :: "PostData \<Rightarrow> post_dict" where
  "dump_entry post_data =
     \<lparr>j_text = Some (text' post_data),
      j_original_text = Some (original_text post_data),
      j_image_base64 = Some (b64encode (image' post_data)),
      j_chat_id = Some (chat_id post_data),
      j_message_id = Some (message_id post_data)\<rparr>"

fun dump_posts :: "(string \<times> entry) list \<Rightarrow> (int \<times> PostData) list
    \<Rightarrow> (string \<times> entry) list" where
  "dump_posts data [] = data"
| "dump_posts data ((cid, post_data) # rest) =
     dump_posts (AList.update (str_int cid) (Object (dump_entry post_data)) data) rest"

text \<open>\<^verbatim>\<open>_save_to_disk\<close>: the whole dict is written as one new file.\<close>

definition save_to_disk :: "PostStorage \<Rightarrow> PostStorage" where
  "save_to_disk st = st\<lparr>storage_file := Some (Parsed (dump_posts [] (posts st)))\<rparr>"

definition save :: "PostStorage \<Rightarrow> int \<Rightarrow> PostData \<Rightarrow> PostStorage" where
  "save st cid post_data = save_to_disk (st\<lparr>posts := AList.update cid post_data (posts st)\<rparr>)"

definition get :: "PostStorage \<Rightarrow> int \<Rightarrow> PostData option" where
  "get st cid = map_of (posts st) cid"

definition delete :: "PostStorage \<Rightarrow> int \<Rightarrow> PostStorage" where
  "delete st cid =
     (if cid \<in> fst ` set (posts st)
      then save_to_disk (st\<lparr>posts := AList.delete cid (posts st)\<rparr>)
      else st)"

text \<open>
  \<^verbatim>\<open>update_text\<close> and \<^verbatim>\<open>update_image\<close> return the flag and the store. A \<^verbatim>\<open>PostData\<close>
  has neither \<^verbatim>\<open>__bool__\<close> nor \<^verbatim>\<open>__len__\<close>, so \<^verbatim>\<open>if post:\<close> tests for \<^verbatim>\<open>None\<close> only.
\<close>

definition update_text :: "PostStorage \<Rightarrow> int \<Rightarrow> string option \<Rightarrow> bool \<times> PostStorage" where
  "update_text st cid new_text =
     (case get st cid of
        Some post \<Rightarrow>
          (True, save_to_disk (st\<lparr>posts := AList.update cid (post\<lparr>text' := new_text\<rparr>) (posts st)\<rparr>))
      | None \<Rightarrow> (False, st))"

definition update_image :: "PostStorage \<Rightarrow> int \<Rightarrow> bytes \<Rightarrow> bool \<times> PostStorage" where
  "update_image st cid new_image =
     (case get st cid of
        Some post \<Rightarrow>
          (True, save_to_disk (st\<lparr>posts := AList.update cid (post\<lparr>image' := new_image\<rparr>) (posts st)\<rparr>))
      | None \<Rightarrow> (False, st))"

definition clear :: "PostStorage \<Rightarrow> PostStorage" where
  "clear st = st\<lparr>posts := [], storage_file := None\<rparr>"

text \<open>
  The stores a process can hold: built from the file found at startup, then changed by
  calls of the methods, in any order.
\<close>

datatype store_op =
    Save int PostData
  | Delete int
  | UpdateText int "string option"
  | UpdateImage int bytes
  | Clear

fun apply_op :: "PostStorage \<Rightarrow> store_op \<Rightarrow> PostStorage" where
  "apply_op st (Save cid post_data) = save st cid post_data"
| "apply_op st (Delete cid) = delete st cid"
| "apply_op st (UpdateText cid new_text) = snd (update_text st cid new_text)"
| "apply_op st (UpdateImage cid new_image) = snd (update_image st cid new_image)"
| "apply_op st Clear = clear st"

definition store_after :: "snapshot option \<Rightarrow> store_op list \<Rightarrow> PostStorage" where
  "store_after f ops = foldl apply_op (PostStorage_init f) ops"

section \<open>gemini_service.py: the generative backend\<close>

text \<open>
  The two models are outside the program. A call is answered by a function of the number
  of calls made so far and of the prompt, and is logged; so a theorem about every such
  function is about every behaviour of the backend. The prompts are f-strings around
  the arguments; they are kept as the template and its arguments. A Python value that
  may be \<^verbatim>\<open>None\<close> is an option.
\<close>

datatype prompt =
    ShortenPrompt "string option"
  | ImagePromptPrompt "string option"
  | EditPrompt "string option" "string option"

datatype 'a outcome = Raised exn | Returned 'a

datatype inline_data = DataBytes bytes | DataStr string

text \<open>
  What \<^verbatim>\<open>_generate_image_sync\<close> reads of a response of the image model: whether it is
  falsy, the data of the first inline part of the first candidate, and the data of the
  first inline part of \<^verbatim>\<open>response.parts\<close>.
\<close>

datatype image_response =
    EmptyResponse
  | ImageResponse "inline_data option" "inline_data option"

record GeminiService =
  text_model :: "nat \<Rightarrow> prompt \<Rightarrow> string outcome"
  text_calls :: "prompt list"
  image_model :: "nat \<Rightarrow> string \<Rightarrow> image_response outcome"
  image_calls :: "string list"
  placeholder_body :: bytes

text \<open>
  The body of the \<^verbatim>\<open>try\<close> in \<^verbatim>\<open>shorten_news\<close>, \<^verbatim>\<open>generate_image_prompt\<close> and
  \<^verbatim>\<open>edit_text_with_instruction\<close>, which is the same in the three: one call, an empty
  answer raises, the text is stripped and logged. The log line of \<^verbatim>\<open>shorten_news\<close> takes
  \<^verbatim>\<open>len(news_text)\<close>, which raises \<^verbatim>\<open>TypeError\<close> when the text is \<^verbatim>\<open>None\<close>; the other two
  only format their arguments.
\<close>

definition loggable :: "prompt \<Rightarrow> bool" where
  "loggable p =
     (case p of
        ShortenPrompt news_text \<Rightarrow> news_text \<noteq> None
      | ImagePromptPrompt news_text \<Rightarrow> True
      | EditPrompt instruction current_text \<Rightarrow> True)"

definition text_attempt :: "GeminiService \<Rightarrow> prompt \<Rightarrow> (exn + string) \<times> GeminiService" where
  "text_attempt g p =
     (let response = text_model g (length (text_calls g)) p;
          g' = g\<lparr>text_calls := text_calls g @ [p]\<rparr>
      in case response of
           Raised e \<Rightarrow> (Inl e, g')
         | Returned t \<Rightarrow>
             if t = [] then (Inl (ValueError ''empty response''), g')
             else if \<not> loggable p then (Inl (TypeError ''len of None''), g')
             else (Inr (strip t), g'))"

text \<open>
  \<^verbatim>\<open>for attempt in range(3)\<close>, counted by the attempts that remain after this one: with
  none left (\<^verbatim>\<open>attempt == 2\<close>) the exception is raised again, otherwise the loop sleeps
  and goes on.
\<close>

primrec text_attempts :: "nat \<Rightarrow> GeminiService \<Rightarrow> prompt \<Rightarrow> (exn + string) \<times> GeminiService" where
  "text_attempts 0 g p = text_attempt g p"
| "text_attempts (Suc remaining) g p =
     (case text_attempt g p of
        (Inr t, g') \<Rightarrow> (Inr t, g')
      | (Inl e, g') \<Rightarrow> text_attempts remaining g' p)"

definition shorten_news :: "GeminiService \<Rightarrow> string option \<Rightarrow> (exn + string) \<times> GeminiService" where
  "shorten_news g news_text = text_attempts 2 g (ShortenPrompt news_text)"

definition generate_image_prompt ::
    "GeminiService \<Rightarrow> string option \<Rightarrow> (exn + string) \<times> GeminiService" where
  "generate_image_prompt g news_text = text_attempts 2 g (ImagePromptPrompt news_text)"

definition edit_text_with_instruction ::
    "GeminiService \<Rightarrow> string option \<Rightarrow> string option \<Rightarrow> (exn + string) \<times> GeminiService" where
  "edit_text_with_instruction g current_text instruction =
     text_attempts 2 g (EditPrompt instruction current_text)"

text \<open>
  \<^verbatim>\<open>_create_placeholder_image\<close> draws a fixed picture and saves it as PNG: the eight bytes
  of the PNG signature, then what the imaging library writes, which is a parameter.
\<close>

definition png_signature :: bytes where
  "png_signature = [0x89, 0x50, 0x4E, 0x47, 0x0D, 0x0A, 0x1A, 0x0A]"

definition create_placeholder_image :: "GeminiService \<Rightarrow> bytes" where
  "create_placeholder_image g = png_signature @ placeholder_body g"

definition truthy_data :: "inline_data option \<Rightarrow> bool" where
  "truthy_data d =
     (case d of None \<Rightarrow> False | Some (DataBytes b) \<Rightarrow> b \<noteq> [] | Some (DataStr s) \<Rightarrow> s \<noteq> [])"

text \<open>The body of the \<^verbatim>\<open>try\<close> in \<^verbatim>\<open>_generate_image_sync\<close>, after the call.\<close>

definition extract_image :: "GeminiService \<Rightarrow> image_response outcome \<Rightarrow> exn + bytes" where
  "extract_image g response =
     (case response of
        Raised e \<Rightarrow> Inl e
      | Returned EmptyResponse \<Rightarrow> Inl (ValueError ''empty response'')
      | Returned (ImageResponse candidate_data parts_data) \<Rightarrow>
          (let image_data =
                 (if truthy_data candidate_data then candidate_data
                  else (case parts_data of None \<Rightarrow> candidate_data | Some d \<Rightarrow> Some d))
           in if \<not> truthy_data image_data then Inr (create_placeholder_image g)
              else (case image_data of
                      None \<Rightarrow> Inr (create_placeholder_image g)
                    | Some (DataBytes b) \<Rightarrow>
                        if length b = 0 then Inr (create_placeholder_image g) else Inr b
                    | Some (DataStr s) \<Rightarrow>
                        (case b64decode s of
                           Inl e \<Rightarrow> Inl e
                         | Inr b \<Rightarrow>
                             if length b = 0 then Inr (create_placeholder_image g) else Inr b))))"

definition image_attempt :: "GeminiService \<Rightarrow> string \<Rightarrow> (exn + bytes) \<times> GeminiService" where
  "image_attempt g p =
     (let response = image_model g (length (image_calls g)) p;
          g' = g\<lparr>image_calls := image_calls g @ [p]\<rparr>
      in (extract_image g' response, g'))"

text \<open>
  The loop of \<^verbatim>\<open>_generate_image_sync\<close>: as above, but the last failure returns the
  placeholder instead of raising.
\<close>

primrec image_attempts :: "nat \<Rightarrow> GeminiService \<Rightarrow> string \<Rightarrow> bytes \<times> GeminiService" where
  "image_attempts 0 g p =
     (case image_attempt g p of
        (Inr img, g') \<Rightarrow> (img, g')
      | (Inl e, g') \<Rightarrow> (create_placeholder_image g', g'))"
| "image_attempts (Suc remaining) g p =
     (case image_attempt g p of
        (Inr img, g') \<Rightarrow> (img, g')
      | (Inl e, g') \<Rightarrow> image_attempts remaining g' p)"

definition generate_image_sync :: "GeminiService \<Rightarrow> string \<Rightarrow> bytes \<times> GeminiService" where
  "generate_image_sync g p = image_attempts 2 g p"

section \<open>keyboards.py and the messages the bot sends\<close>

text \<open>A keyboard is the list of the \<^verbatim>\<open>callback_data\<close> of its buttons.\<close>

type_synonym keyboard = "string list"

definition get_post_actions_keyboard :: keyboard where
  "get_post_actions_keyboard = [''send'', ''cancel'', ''edit'']"

definition get_edit_options_keyboard :: keyboard where
  "get_edit_options_keyboard = [''edit_image'', ''edit_text'', ''back_to_preview'']"

definition get_image_edit_keyboard :: keyboard where
  "get_image_edit_keyboard = [''regenerate_image'', ''upload_image'', ''back_to_edit'']"

definition get_text_edit_keyboard :: keyboard where
  "get_text_edit_keyboard = [''ai_edit_text'', ''manual_edit_text'', ''back_to_edit'']"

definition get_cancel_keyboard :: keyboard where
  "get_cancel_keyboard = [''cancel_operation'']"

text \<open>
  The texts of the bot are Russian string literals; each is named by what it says, with
  the values its f-string inserts.
\<close>

datatype notice =
    Processing
  | GeneratingImage
  | NewsError exn
  | PostNotFound
  | Published "string option"
  | Cancelled
  | DataNotFound
  | RegeneratingImage
  | ImageGenError exn
  | SendYourImage
  | PleaseSendImage
  | ResetDone
  | AskAiInstruction
  | AiEditing
  | EditError exn
  | AskManualText
  | OperationCancelled

datatype destination = Chat int | TargetGroup

text \<open>
  The calls to the chat transport, in the order they are made. They are taken to
  succeed: the branches of the handlers that run only when a transport call raises are
  not part of the model.
\<close>

datatype action =
    ReplyText notice "keyboard option"
  | EditProcessing notice
  | DeleteProcessing
  | DeleteMessage
  | ReplyPhoto bytes "string option" keyboard
  | SendPhoto destination bytes "string option" "keyboard option"
  | Answer "notice option" bool
  | EditMessageCaption notice
  | EditMessageReplyMarkup keyboard
  | EditMessageMedia bytes "string option" keyboard
  | EditQueryMessage notice

text \<open>
  \<^verbatim>\<open>process_news_full\<close>; the third component is the status edit it makes on the
  processing message.
\<close>

definition process_news_full ::
    "GeminiService \<Rightarrow> string option \<Rightarrow> bytes option
      \<Rightarrow> (exn + string \<times> bytes) \<times> GeminiService \<times> action list" where
  "process_news_full g news_text user_image =
     (case shorten_news g news_text of
        (Inl e, g1) \<Rightarrow> (Inl e, g1, [])
      | (Inr shortened_text, g1) \<Rightarrow>
          (case user_image of
             Some img \<Rightarrow> (Inr (shortened_text, img), g1, [EditProcessing GeneratingImage])
           | None \<Rightarrow>
               (case generate_image_prompt g1 (Some shortened_text) of
                  (Inl e, g2) \<Rightarrow> (Inl e, g2, [EditProcessing GeneratingImage])
                | (Inr image_prompt, g2) \<Rightarrow>
                    (case generate_image_sync g2 image_prompt of
                       (img, g3) \<Rightarrow>
                         (Inr (shortened_text, img), g3, [EditProcessing GeneratingImage])))))"

section \<open>handlers.py: the interaction controller\<close>

text \<open>
  An inbound message: \<open>msg_photo\<close> is the tuple \<^verbatim>\<open>update.message.photo\<close>, the sizes of
  the photo of the message from the smallest to the largest, each with the bytes its
  download gives. A button press carries its \<^verbatim>\<open>callback_data\<close> and the chat of the
  message the button is on.
\<close>

record Message =
  msg_chat_id :: int
  msg_text :: "string option"
  msg_caption :: "string option"
  msg_photo :: "bytes list"
  msg_video :: bool

record CallbackQuery =
  q_data :: string
  q_chat_id :: int

text \<open>
  What a handler sees and changes: \<^verbatim>\<open>context.user_data\<close> of the sender, the store, the
  backend, and the transport calls made so far.
\<close>

record World =
  user_data :: "string \<rightharpoonup> bool"
  storage :: PostStorage
  gemini :: GeminiService
  sent :: "action list"

definition truthy :: "string option \<Rightarrow> bool" where
  "truthy s = (case s of None \<Rightarrow> False | Some t \<Rightarrow> t \<noteq> [])"

text \<open>\<^verbatim>\<open>context.user_data.get(key)\<close> used as a condition.\<close>

definition flag :: "World \<Rightarrow> string \<Rightarrow> bool" where
  "flag w key = (user_data w key = Some True)"

definition pop_flag :: "World \<Rightarrow> string \<Rightarrow> World" where
  "pop_flag w key = w\<lparr>user_data := (user_data w)(key := None)\<rparr>"

definition set_flag :: "World \<Rightarrow> string \<Rightarrow> World" where
  "set_flag w key = w\<lparr>user_data := (user_data w)(key \<mapsto> True)\<rparr>"

definition emit :: "World \<Rightarrow> action list \<Rightarrow> World" where
  "emit w acts = w\<lparr>sent := sent w @ acts\<rparr>"

definition handle_manual_edit_input :: "World \<Rightarrow> Message \<Rightarrow> World" where
  "handle_manual_edit_input w m =
     (let cid = msg_chat_id m;
          new_text = msg_text m;
          w1 = pop_flag w ''waiting_for_manual_edit''
      in case get (storage w1) cid of
           None \<Rightarrow> emit w1 [ReplyText PostNotFound None]
         | Some post_data \<Rightarrow>
             emit (w1\<lparr>storage := snd (update_text (storage w1) cid new_text)\<rparr>)
               [DeleteMessage,
                SendPhoto (Chat cid) (image' post_data) new_text (Some get_post_actions_keyboard)])"

definition handle_ai_edit_input :: "World \<Rightarrow> Message \<Rightarrow> World" where
  "handle_ai_edit_input w m =
     (let cid = msg_chat_id m;
          instruction = msg_text m;
          w1 = pop_flag w ''waiting_for_ai_edit''
      in case get (storage w1) cid of
           None \<Rightarrow> emit w1 [ReplyText PostNotFound None]
         | Some post_data \<Rightarrow>
             (let w2 = emit w1 [ReplyText AiEditing None];
                  current_text = (if truthy (original_text post_data)
                                  then original_text post_data else text' post_data)
              in case edit_text_with_instruction (gemini w2) current_text instruction of
                   (Inl e, g') \<Rightarrow> emit (w2\<lparr>gemini := g'\<rparr>) [EditProcessing (EditError e)]
                 | (Inr edited_text, g') \<Rightarrow>
                     emit (w2\<lparr>gemini := g',
                              storage := snd (update_text (storage w2) cid (Some edited_text))\<rparr>)
                       [DeleteMessage, DeleteProcessing,
                        SendPhoto (Chat cid) (image' post_data) (Some edited_text)
                          (Some get_post_actions_keyboard)]))"

definition handle_image_upload :: "World \<Rightarrow> Message \<Rightarrow> World" where
  "handle_image_upload w m =
     (let w1 = pop_flag w ''waiting_for_image''
      in if msg_photo m = [] then emit w1 [ReplyText PleaseSendImage None]
         else
           (let user_image = last (msg_photo m);
                cid = msg_chat_id m
            in case get (storage w1) cid of
                 None \<Rightarrow> emit w1 [ReplyText PostNotFound None]
               | Some post_data \<Rightarrow>
                   emit (w1\<lparr>storage := snd (update_image (storage w1) cid user_image)\<rparr>)
                     [DeleteMessage,
                      SendPhoto (Chat cid) user_image (text' post_data)
                        (Some get_post_actions_keyboard)]))"

text \<open>
  \<^verbatim>\<open>handle_message\<close> from the test for a candidate submission on (the part below the
  three flag checks).
\<close>

definition handle_news :: "World \<Rightarrow> Message \<Rightarrow> World" where
  "handle_news w m =
     (let has_text = truthy (msg_text m);
          has_photo_with_caption = (msg_photo m \<noteq> [] \<and> truthy (msg_caption m));
          has_video_with_caption = (msg_video m \<and> truthy (msg_caption m))
      in if \<not> (has_text \<or> has_photo_with_caption \<or> has_video_with_caption) then w
         else
           (let cid = msg_chat_id m;
                news_text = (if has_text then msg_text m else msg_caption m);
                w1 = emit w [ReplyText Processing None];
                user_image =
                  (if msg_photo m \<noteq> [] \<and> length (msg_photo m) = 1 \<and> \<not> msg_video m
                   then Some (last (msg_photo m)) else None)
            in case process_news_full (gemini w1) news_text user_image of
                 (Inl e, g', acts) \<Rightarrow>
                   emit (w1\<lparr>gemini := g'\<rparr>) (acts @ [EditProcessing (NewsError e)])
               | (Inr (shortened_text, img), g', acts) \<Rightarrow>
                   if length img = 0
                   then emit (w1\<lparr>gemini := g'\<rparr>)
                          (acts @ [EditProcessing (NewsError (ValueError ''empty image''))])
                   else
                     emit (w1\<lparr>gemini := g',
                              storage := save (storage w1) cid
                                \<lparr>text' = Some shortened_text, image' = img, chat_id = cid,
                                 original_text = news_text, message_id = None\<rparr>\<rparr>)
                       (acts @ [DeleteProcessing,
                                ReplyPhoto img (Some shortened_text) get_post_actions_keyboard])))"

definition handle_message :: "World \<Rightarrow> Message option \<Rightarrow> World" where
  "handle_message w upd =
     (case upd of
        None \<Rightarrow> w
      | Some m \<Rightarrow>
          if flag w ''waiting_for_manual_edit'' then handle_manual_edit_input w m
          else if flag w ''waiting_for_ai_edit'' then handle_ai_edit_input w m
          else if flag w ''waiting_for_image'' then handle_image_upload w m
          else handle_news w m)"

definition handle_send :: "World \<Rightarrow> CallbackQuery \<Rightarrow> World" where
  "handle_send w q =
     (case get (storage w) (q_chat_id q) of
        None \<Rightarrow> emit w [EditMessageCaption PostNotFound]
      | Some post_data \<Rightarrow>
          emit (w\<lparr>storage := delete (storage w) (q_chat_id q)\<rparr>)
            [SendPhoto TargetGroup (image' post_data) (text' post_data) None,
             EditMessageCaption (Published (text' post_data))])"

definition handle_cancel :: "World \<Rightarrow> CallbackQuery \<Rightarrow> World" where
  "handle_cancel w q =
     emit (w\<lparr>storage := delete (storage w) (q_chat_id q)\<rparr>) [EditMessageCaption Cancelled]"

definition handle_edit :: "World \<Rightarrow> CallbackQuery \<Rightarrow> World" where
  "handle_edit w q = emit w [EditMessageReplyMarkup get_edit_options_keyboard]"

definition handle_edit_image :: "World \<Rightarrow> CallbackQuery \<Rightarrow> World" where
  "handle_edit_image w q = emit w [EditMessageReplyMarkup get_image_edit_keyboard]"

definition handle_edit_text :: "World \<Rightarrow> CallbackQuery \<Rightarrow> World" where
  "handle_edit_text w q = emit w [EditMessageReplyMarkup get_text_edit_keyboard]"

definition handle_regenerate_image :: "World \<Rightarrow> CallbackQuery \<Rightarrow> World" where
  "handle_regenerate_image w q =
     (let cid = q_chat_id q
      in case get (storage w) cid of
           None \<Rightarrow> emit w [Answer (Some DataNotFound) True]
         | Some post_data \<Rightarrow>
             (let w1 = emit w [Answer (Some RegeneratingImage) False,
                               ReplyText RegeneratingImage None]
              in case generate_image_prompt (gemini w1) (text' post_data) of
                   (Inl e, g1) \<Rightarrow> emit (w1\<lparr>gemini := g1\<rparr>) [EditProcessing (ImageGenError e)]
                 | (Inr image_prompt, g1) \<Rightarrow>
                     (case generate_image_sync g1 image_prompt of
                        (new_image, g2) \<Rightarrow>
                          if length new_image = 0
                          then emit (w1\<lparr>gemini := g2\<rparr>)
                                 [EditProcessing (ImageGenError (ValueError ''empty image''))]
                          else
                            emit (w1\<lparr>gemini := g2,
                                     storage := snd (update_image (storage w1) cid new_image)\<rparr>)
                              [EditMessageMedia new_image (text' post_data)
                                 get_post_actions_keyboard,
                               DeleteProcessing])))"

definition handle_upload_image :: "World \<Rightarrow> CallbackQuery \<Rightarrow> World" where
  "handle_upload_image w q =
     emit (set_flag w ''waiting_for_image'')
       [Answer None False, ReplyText SendYourImage (Some get_cancel_keyboard)]"

definition handle_ai_edit_text :: "World \<Rightarrow> CallbackQuery \<Rightarrow> World" where
  "handle_ai_edit_text w q =
     emit (set_flag w ''waiting_for_ai_edit'')
       [Answer None False, ReplyText AskAiInstruction (Some get_cancel_keyboard)]"

definition handle_manual_edit_text :: "World \<Rightarrow> CallbackQuery \<Rightarrow> World" where
  "handle_manual_edit_text w q =
     emit (set_flag w ''waiting_for_manual_edit'')
       [Answer None False, ReplyText AskManualText (Some get_cancel_keyboard)]"

definition handle_back_to_preview :: "World \<Rightarrow> CallbackQuery \<Rightarrow> World" where
  "handle_back_to_preview w q = emit w [EditMessageReplyMarkup get_post_actions_keyboard]"

definition handle_back_to_edit :: "World \<Rightarrow> CallbackQuery \<Rightarrow> World" where
  "handle_back_to_edit w q = emit w [EditMessageReplyMarkup get_edit_options_keyboard]"

definition handle_cancel_operation :: "World \<Rightarrow> CallbackQuery \<Rightarrow> World" where
  "handle_cancel_operation w q =
     (let cid = q_chat_id q;
          w1 = pop_flag (pop_flag (pop_flag w ''waiting_for_manual_edit'')
                  ''waiting_for_ai_edit'') ''waiting_for_image'';
          w2 = emit w1 [EditQueryMessage OperationCancelled]
      in case get (storage w2) cid of
           Some post_data \<Rightarrow>
             emit w2 [SendPhoto (Chat cid) (image' post_data) (text' post_data)
                        (Some get_post_actions_keyboard)]
         | None \<Rightarrow> emit w2 [Answer (Some OperationCancelled) False])"

text \<open>\<^verbatim>\<open>handle_callback\<close>: the query is answered, then routed by its data.\<close>

definition handle_callback :: "World \<Rightarrow> CallbackQuery \<Rightarrow> World" where
  "handle_callback w q =
     (let w1 = emit w [Answer None False];
          callback_data = q_data q
      in if callback_data = ''send'' then handle_send w1 q
         else if callback_data = ''cancel'' then handle_cancel w1 q
         else if callback_data = ''edit'' then handle_edit w1 q
         else if callback_data = ''edit_image'' then handle_edit_image w1 q
         else if callback_data = ''edit_text'' then handle_edit_text w1 q
         else if callback_data = ''regenerate_image'' then handle_regenerate_image w1 q
         else if callback_data = ''upload_image'' then handle_upload_image w1 q
         else if callback_data = ''ai_edit_text'' then handle_ai_edit_text w1 q
         else if callback_data = ''manual_edit_text'' then handle_manual_edit_text w1 q
         else if callback_data = ''back_to_preview'' then handle_back_to_preview w1 q
         else if callback_data = ''back_to_edit'' then handle_back_to_edit w1 q
         else if callback_data = ''cancel_operation'' then handle_cancel_operation w1 q
         else w1)"

definition reset_command :: "World \<Rightarrow> World" where
  "reset_command w =
     emit (w\<lparr>storage := PostStorage_init None, user_data := Map.empty\<rparr>)
       [ReplyText ResetDone None]"

section \<open>main.py: the updates the application routes\<close>

datatype update = MessageUpdate "Message option" | CallbackUpdate CallbackQuery | ResetCommand

fun dispatch :: "World \<Rightarrow> update \<Rightarrow> World" where
  "dispatch w (MessageUpdate m) = handle_message w m"
| "dispatch w (CallbackUpdate q) = handle_callback w q"
| "dispatch w ResetCommand = reset_command w"

definition start :: "GeminiService \<Rightarrow> snapshot option \<Rightarrow> World" where
  "start g f = \<lparr>user_data = Map.empty, storage = PostStorage_init f, gemini = g, sent = []\<rparr>"

definition run :: "World \<Rightarrow> update list \<Rightarrow> World" where
  "run w updates = foldl dispatch w updates"

text \<open>The session flags that are set, in the order \<^verbatim>\<open>handle_message\<close> tests them.\<close>

definition flags_set :: "World \<Rightarrow> string list" where
  "flags_set w =
     filter (flag w) [''waiting_for_manual_edit'', ''waiting_for_ai_edit'', ''waiting_for_image'']"

section \<open>Notions used to state the properties\<close>

text \<open>
  A call of the text model fails when it raises or answers with an empty text; the
  exception the attempt then raises; a call of the image model fails when it raises or
  answers with an empty response.
\<close>

definition text_fails :: "GeminiService \<Rightarrow> nat \<Rightarrow> prompt \<Rightarrow> bool" where
  "text_fails g i p = (case text_model g i p of Raised e \<Rightarrow> True | Returned t \<Rightarrow> t = [])"

definition text_failure :: "GeminiService \<Rightarrow> nat \<Rightarrow> prompt \<Rightarrow> exn" where
  "text_failure g i p =
     (case text_model g i p of Raised e \<Rightarrow> e | Returned t \<Rightarrow> ValueError ''empty response'')"

definition image_fails :: "GeminiService \<Rightarrow> nat \<Rightarrow> string \<Rightarrow> bool" where
  "image_fails g i p =
     (case image_model g i p of
        Raised e \<Rightarrow> True
      | Returned EmptyResponse \<Rightarrow> True
      | Returned (ImageResponse candidate_data parts_data) \<Rightarrow> False)"

text \<open>
  The prompts of \<^verbatim>\<open>shorten_news\<close>, and the prompt \<^verbatim>\<open>_handle_ai_edit_input\<close> sends for a
  record and an instruction message.
\<close>

definition is_shorten :: "prompt \<Rightarrow> bool" where
  "is_shorten p = (case p of ShortenPrompt t \<Rightarrow> True | ImagePromptPrompt t \<Rightarrow> False | EditPrompt i t \<Rightarrow> False)"

definition ai_edit_prompt :: "PostData \<Rightarrow> Message \<Rightarrow> prompt" where
  "ai_edit_prompt post_data m =
     EditPrompt (msg_text m)
       (if truthy (original_text post_data) then original_text post_data else text' post_data)"

text \<open>
  The text \<^verbatim>\<open>handle_message\<close> takes as the news, and its test for a candidate
  submission.
\<close>

definition news_text :: "Message \<Rightarrow> string option" where
  "news_text m = (if truthy (msg_text m) then msg_text m else msg_caption m)"

definition candidate :: "Message \<Rightarrow> bool" where
  "candidate m =
     (truthy (msg_text m) \<or> (msg_photo m \<noteq> [] \<and> truthy (msg_caption m))
      \<or> (msg_video m \<and> truthy (msg_caption m)))"

section \<open>Concrete inputs\<close>

text \<open>
  Two records for chat 7, a store holding the first, models that always answer and
  models that always raise, worlds around them, messages, button presses, a session in
  which two edit modes are entered one after the other, and a snapshot whose second
  entry lacks its image.
\<close>

definition post_a :: PostData where
  "post_a = \<lparr>text' = Some ''Short news.'', image' = [0xFF, 0xD8, 0xFF], chat_id = 7,
             original_text = Some ''Breaking: X happened'', message_id = None\<rparr>"

definition post_b :: PostData where
  "post_b = \<lparr>text' = Some ''Other'', image' = [0x47, 0x49], chat_id = 7,
             original_text = None, message_id = Some 3\<rparr>"

definition store_a :: PostStorage where
  "store_a = store_after None [Save 7 post_a]"

definition steady_text_model :: "nat \<Rightarrow> prompt \<Rightarrow> string outcome" where
  "steady_text_model n p = Returned ''Short news.''"

definition failing_text_model :: "nat \<Rightarrow> prompt \<Rightarrow> string outcome" where
  "failing_text_model n p = Raised (ApiError ''unavailable'')"

definition steady_image_model :: "nat \<Rightarrow> string \<Rightarrow> image_response outcome" where
  "steady_image_model n p = Returned (ImageResponse (Some (DataBytes [0x47, 0x49, 0x46])) None)"

definition failing_image_model :: "nat \<Rightarrow> string \<Rightarrow> image_response outcome" where
  "failing_image_model n p = Raised (ApiError ''unavailable'')"

definition backend :: "(nat \<Rightarrow> prompt \<Rightarrow> string outcome)
    \<Rightarrow> (nat \<Rightarrow> string \<Rightarrow> image_response outcome) \<Rightarrow> GeminiService" where
  "backend tm im = \<lparr>text_model = tm, text_calls = [], image_model = im, image_calls = [],
                    placeholder_body = []\<rparr>"

definition world_a :: "GeminiService \<Rightarrow> string list \<Rightarrow> World" where
  "world_a g flags = \<lparr>user_data = map_of (map (\<lambda>k. (k, True)) flags), storage = store_a,
                      gemini = g, sent = []\<rparr>"

definition text_message :: "string \<Rightarrow> Message" where
  "text_message t = \<lparr>msg_chat_id = 7, msg_text = Some t, msg_caption = None, msg_photo = [],
                     msg_video = False\<rparr>"

definition photo_message :: "string \<Rightarrow> bytes list \<Rightarrow> Message" where
  "photo_message c photos = \<lparr>msg_chat_id = 7, msg_text = None, msg_caption = Some c,
                             msg_photo = photos, msg_video = False\<rparr>"

definition press :: "string \<Rightarrow> CallbackQuery" where
  "press d = \<lparr>q_data = d, q_chat_id = 7\<rparr>"

definition two_flags_trace :: "update list" where
  "two_flags_trace =
     [MessageUpdate (Some (text_message ''Breaking: X happened'')),
      CallbackUpdate (press ''edit''), CallbackUpdate (press ''edit_image''),
      CallbackUpdate (press ''upload_image''), CallbackUpdate (press ''back_to_edit''),
      CallbackUpdate (press ''edit_text''), CallbackUpdate (press ''ai_edit_text'')]"

definition entry_7 :: post_dict where
  "entry_7 = \<lparr>j_text = Some (Some ''Short news.''),
      j_original_text = Some (Some ''Breaking: X happened''), j_image_base64 = Some ''/9j/'',
      j_chat_id = Some 7, j_message_id = Some None\<rparr>"

definition entry_8_no_image :: post_dict where
  "entry_8_no_image = \<lparr>j_text = Some (Some ''Other''), j_original_text = Some None,
      j_image_base64 = None, j_chat_id = Some 8, j_message_id = Some None\<rparr>"

definition corrupt_snapshot :: snapshot where
  "corrupt_snapshot = Parsed [(''7'', Object entry_7), (''8'', Object entry_8_no_image)]"

section \<open>Base64: decoding inverts encoding\<close>

lemma index_of_nth: "distinct xs \<Longrightarrow> n < length xs \<Longrightarrow> index_of xs (xs ! n) = Some n"
proof (induction xs arbitrary: n)
  case Nil
  then show ?case by simp
next
  case (Cons x xs)
  show ?case
  proof (cases n)
    case 0
    then show ?thesis by simp
  next
    case (Suc m)
    with Cons.prems have "m < length xs" "distinct xs" "xs ! m \<noteq> x"
      by (auto simp: in_set_conv_nth)
    with Cons.IH [of m] Suc show ?thesis by auto
  qed
qed

lemma distinct_b64_alphabet: "distinct b64_alphabet"
  by (simp add: b64_alphabet_def)

lemma length_b64_alphabet: "length b64_alphabet = 64"
  by (simp add: b64_alphabet_def)

lemma a2b_b2a: "n < 64 \<Longrightarrow> a2b (b2a n) = Some n"
  unfolding a2b_def b2a_def
  by (rule index_of_nth) (simp_all add: distinct_b64_alphabet length_b64_alphabet)

lemma b64_alphabet_ascii:
  "list_all (\<lambda>c. (of_char c :: nat) < 128 \<and> c \<noteq> CHR ''='') b64_alphabet"
  by (simp add: b64_alphabet_def)

lemma b2a_ascii: "n < 64 \<Longrightarrow> (of_char (b2a n) :: nat) < 128"
  using b64_alphabet_ascii by (simp add: b2a_def list_all_length length_b64_alphabet)

lemma b2a_not_pad: "n < 64 \<Longrightarrow> b2a n \<noteq> CHR ''=''"
  using b64_alphabet_ascii by (simp add: b2a_def list_all_length length_b64_alphabet)

lemma byte_lt: "unat (a :: 8 word) < 256"
  using unsigned_less [of a, where ?'a = nat] by simp

lemma a2b_base64_sextet:
  "v < 64 \<Longrightarrow> a2b_base64 (b2a v # cs) q l p out =
     (if q = 0 then a2b_base64 cs 1 v 0 out
      else if q = 1 then a2b_base64 cs 2 (v mod 16) 0 (out @ [of_nat (l * 4 + v div 16)])
      else if q = 2 then a2b_base64 cs 3 (v mod 4) 0 (out @ [of_nat (l * 16 + v div 4)])
      else a2b_base64 cs 0 0 0 (out @ [of_nat (l * 64 + v)]))"
  by (simp add: a2b_b2a b2a_not_pad)

lemma a2b_base64_pad:
  "a2b_base64 (CHR ''='' # cs) q l p out =
     (if 2 \<le> q \<and> 4 \<le> q + (p + 1) then Inr out
      else a2b_base64 cs q l (if 2 \<le> q then p + 1 else p) out)"
  by simp

lemmas a2b_step = a2b_base64_sextet a2b_base64_pad

lemma a2b_base64_b64encode:
  "a2b_base64 (b64encode bs) 0 0 0 out = Inr (out @ bs)"
proof (induction bs arbitrary: out rule: b64encode.induct)
  case 1
  show ?case by simp
next
  case (2 a)
  show ?case using byte_lt [of a] by (simp add: a2b_step del: a2b_base64.simps(2))
next
  case (3 a b)
  show ?case using byte_lt [of a] byte_lt [of b] by (simp add: a2b_step del: a2b_base64.simps(2))
next
  case (4 a b c rest)
  show ?case using byte_lt [of a] byte_lt [of b] byte_lt [of c]
    by (simp add: a2b_step "4.IH" del: a2b_base64.simps(2))
qed

lemma b64encode_ascii: "list_all (\<lambda>c. (of_char c :: nat) < 128) (b64encode bs)"
proof (induction bs rule: b64encode.induct)
  case 1
  show ?case by simp
next
  case (2 a)
  show ?case using byte_lt [of a] by (simp add: b2a_ascii)
next
  case (3 a b)
  show ?case using byte_lt [of a] byte_lt [of b] by (simp add: b2a_ascii)
next
  case (4 a b c rest)
  then show ?case using byte_lt [of a] byte_lt [of b] byte_lt [of c]
    by (simp add: b2a_ascii)
qed

lemma b64decode_b64encode: "b64decode (b64encode bs) = Inr bs"
  using a2b_base64_b64encode [of bs "[]"] by (simp add: b64decode_def b64encode_ascii)

text \<open>The encoder and the decoder on the test vectors of RFC 4648 and on bad input.\<close>

lemma b2a_values:
  "b2a 19 = CHR ''T''" "b2a 22 = CHR ''W''" "b2a 5 = CHR ''F''" "b2a 46 = CHR ''u''"
  "b2a 4 = CHR ''E''" "b2a 16 = CHR ''Q''" "b2a 63 = CHR ''/''" "b2a 61 = CHR ''9''"
  "b2a 35 = CHR ''j''"
  by (simp_all add: b2a_def b64_alphabet_def)

lemma b64encode_vectors:
  "b64encode [0x4D, 0x61, 0x6E] = ''TWFu''"
  "b64encode [0x4D, 0x61] = ''TWE=''"
  "b64encode [0x4D] = ''TQ==''"
  "b64encode [0xFF, 0xD8, 0xFF] = ''/9j/''"
  by (simp_all add: b2a_values)

lemma b64decode_vectors:
  "b64decode ''TWFu'' = Inr [0x4D, 0x61, 0x6E]"
  "b64decode ''TQ=='' = Inr [0x4D]"
  "b64decode ''TQ='' = Inl (BinasciiError ''Incorrect padding'')"
  "b64decode ''T'' = Inl (BinasciiError ''Invalid base64-encoded string'')"
  by (simp_all add: b64decode_def a2b_def b64_alphabet_def)

section \<open>Decimal integers: \<^verbatim>\<open>int(str(n))\<close> is \<open>n\<close>\<close>

lemma of_char_digit_char:
  assumes "d < 10"
  shows "(of_char (digit_char d) :: nat) = 48 + d"
proof -
  from assms have "d \<in> {0, 1, 2, 3, 4, 5, 6, 7, 8, 9}" by auto
  then show ?thesis by (auto simp: digit_char_def)
qed

lemma digit_char_props:
  assumes "d < 10"
  shows "is_digit (digit_char d) \<and> digit_val (digit_char d) = d \<and> \<not> is_int_space (digit_char d)
     \<and> digit_char d \<noteq> CHR ''-'' \<and> digit_char d \<noteq> CHR ''+''"
proof -
  have "(of_char (digit_char d) :: nat) \<noteq> of_char CHR ''-''"
       "(of_char (digit_char d) :: nat) \<noteq> of_char CHR ''+''"
    using assms by (simp_all add: of_char_digit_char)
  then have "digit_char d \<noteq> CHR ''-''" "digit_char d \<noteq> CHR ''+''" by fastforce+
  then show ?thesis
    using assms by (simp add: is_digit_def digit_val_def is_int_space_def of_char_digit_char)
qed

lemma parse_digits_str_nat:
  "parse_digits (str_nat n @ cs) acc prev = parse_digits cs (acc * 10 ^ length (str_nat n) + n) True"
proof (induction n arbitrary: cs acc prev rule: str_nat.induct)
  case (1 n)
  show ?case
  proof (cases "n < 10")
    case True
    then show ?thesis by (simp add: str_nat.simps [of n] digit_char_props)
  next
    case False
    have m: "n mod 10 < 10" by simp
    have "parse_digits (str_nat n @ cs) acc prev
        = parse_digits (str_nat (n div 10) @ (digit_char (n mod 10) # cs)) acc prev"
      using False by (simp add: str_nat.simps [of n])
    also have "\<dots> = parse_digits (digit_char (n mod 10) # cs)
        (acc * 10 ^ length (str_nat (n div 10)) + n div 10) True"
      using False by (rule "1.IH")
    also have "\<dots> = parse_digits cs
        ((acc * 10 ^ length (str_nat (n div 10)) + n div 10) * 10 + n mod 10) True"
      using m by (simp add: digit_char_props)
    also have "(acc * 10 ^ length (str_nat (n div 10)) + n div 10) * 10 + n mod 10
        = acc * 10 ^ length (str_nat n) + n"
      using False by (simp add: str_nat.simps [of n] algebra_simps)
    finally show ?thesis .
  qed
qed

lemma str_nat_ends:
  "\<exists>c cs. str_nat n = c # cs \<and> \<not> is_int_space c \<and> c \<noteq> CHR ''-'' \<and> c \<noteq> CHR ''+''
     \<and> \<not> is_int_space (last (str_nat n))"
proof (induction n rule: str_nat.induct)
  case (1 n)
  show ?case
  proof (cases "n < 10")
    case True
    then show ?thesis by (simp add: str_nat.simps [of n] digit_char_props)
  next
    case False
    have m: "n mod 10 < 10" by simp
    from "1.IH" [OF False] obtain c cs where "str_nat (n div 10) = c # cs"
      "\<not> is_int_space c" "c \<noteq> CHR ''-''" "c \<noteq> CHR ''+''" by blast
    then show ?thesis
      using False digit_char_props [OF m] by (simp add: str_nat.simps [of n])
  qed
qed

lemma int_strip_id: "s \<noteq> [] \<Longrightarrow> \<not> is_int_space (hd s) \<Longrightarrow> \<not> is_int_space (last s) \<Longrightarrow> int_strip s = s"
proof -
  assume a: "s \<noteq> []" "\<not> is_int_space (hd s)" "\<not> is_int_space (last s)"
  then have "dropWhile is_int_space s = s" by (cases s) auto
  moreover have "dropWhile is_int_space (rev s) = rev s"
    using a by (cases "rev s") (auto simp: last_rev [symmetric] hd_rev simp del: last_rev)
  ultimately show ?thesis by (simp add: int_strip_def)
qed

lemma parse_str_nat: "parse_digits (str_nat n) 0 False = Some n"
  using parse_digits_str_nat [of n "[]" 0 False] by simp

lemma int_of_str_str_int: "int_of_str (str_int i) = Inr i"
proof -
  obtain c cs where s: "str_nat (nat \<bar>i\<bar>) = c # cs" "\<not> is_int_space c" "c \<noteq> CHR ''-''" "c \<noteq> CHR ''+''"
    "\<not> is_int_space (last (str_nat (nat \<bar>i\<bar>)))"
    using str_nat_ends [of "nat \<bar>i\<bar>"] by blast
  show ?thesis
  proof (cases "i < 0")
    case True
    then have e: "str_int i = CHR ''-'' # str_nat (nat \<bar>i\<bar>)" by (simp add: str_int_def)
    have "int_strip (str_int i) = str_int i"
      by (rule int_strip_id) (use s in \<open>simp_all add: e is_int_space_def\<close>)
    then show ?thesis
      using True by (simp add: int_of_str_def e parse_str_nat)
  next
    case False
    then have e: "str_int i = str_nat (nat \<bar>i\<bar>)" by (simp add: str_int_def)
    have "int_strip (str_int i) = str_int i"
      by (rule int_strip_id) (use s in \<open>simp_all add: e\<close>)
    then show ?thesis
      using False s parse_str_nat [of "nat \<bar>i\<bar>"] by (simp add: int_of_str_def e)
  qed
qed

text \<open>\<^verbatim>\<open>int\<close> and \<^verbatim>\<open>strip\<close> on white space: what Python does at these inputs.\<close>

lemma int_of_str_vectors:
  "int_of_str '' 7 '' = Inr 7"
  "int_of_str ''-12'' = Inr (- 12)"
  "int_of_str ''+1_000'' = Inr 1000"
  "int_of_str [CHR 0xA0, CHR ''7''] = Inr 7"
  "int_of_str [CHR 0x85, CHR ''7''] = Inr 7"
  "isl (int_of_str [CHR 0x1F, CHR ''7''])"
  "isl (int_of_str ''1__0'')"
  "isl (int_of_str ''- 7'')"
  "isl (int_of_str [])"
  by (simp_all add: int_of_str_def int_strip_def is_int_space_def is_digit_def digit_val_def)

lemma strip_vectors:
  "strip [CHR 0xA0, CHR ''o'', CHR ''k'', CHR 0x85] = ''ok''"
  "strip [CHR 0x1F, CHR ''o'', CHR ''k'', CHR 0x0A] = ''ok''"
  by (simp_all add: strip_def is_space_def)

section \<open>The record store\<close>

lemma str_int_inject:
  assumes "str_int a = str_int b"
  shows "a = b"
proof -
  have "(Inr a :: exn + int) = int_of_str (str_int a)" by (simp only: int_of_str_str_int)
  also have "\<dots> = int_of_str (str_int b)" by (simp only: assms)
  also have "\<dots> = Inr b" by (simp only: int_of_str_str_int)
  finally show ?thesis by (simp only: sum.inject)
qed

lemma update_fresh: "k \<notin> fst ` set al \<Longrightarrow> AList.update k v al = al @ [(k, v)]"
  by (induction al) auto

lemma load_entry_dump_entry:
  "load_entry (str_int k) (Object (dump_entry p)) = Inr (p\<lparr>chat_id := k\<rparr>)"
  by (simp add: load_entry_def dump_entry_def int_of_str_str_int b64decode_b64encode)

lemma dump_posts_distinct:
  "distinct (map fst ps) \<Longrightarrow> str_int ` fst ` set ps \<inter> fst ` set data = {} \<Longrightarrow>
   dump_posts data ps = data @ map (\<lambda>(k, p). (str_int k, Object (dump_entry p))) ps"
proof (induction ps arbitrary: data)
  case Nil
  show ?case by simp
next
  case (Cons kp ps)
  obtain k p where kp: "kp = (k, p)" by (cases kp)
  have fresh: "str_int k \<notin> fst ` set data" using Cons.prems(2) kp by auto
  have d: "distinct (map fst ps)" "k \<notin> fst ` set ps" using Cons.prems(1) kp by auto
  have "str_int ` fst ` set ps \<inter> fst ` set (data @ [(str_int k, Object (dump_entry p))]) = {}"
    using Cons.prems(2) d(2) kp by (auto dest: str_int_inject)
  from Cons.IH [OF d(1) this] show ?case
    by (simp add: kp update_fresh [OF fresh])
qed

lemma load_entries_dumped:
  "distinct (map fst ps) \<Longrightarrow> fst ` set ps \<inter> fst ` set acc = {} \<Longrightarrow>
   load_entries acc (map (\<lambda>(k, p). (str_int k, Object (dump_entry p))) ps)
     = (acc @ map (\<lambda>(k, p). (k, p\<lparr>chat_id := k\<rparr>)) ps, None)"
proof (induction ps arbitrary: acc)
  case Nil
  show ?case by simp
next
  case (Cons kp ps)
  obtain k p where kp: "kp = (k, p)" by (cases kp)
  have fresh: "k \<notin> fst ` set acc" using Cons.prems(2) kp by auto
  have d: "distinct (map fst ps)" "k \<notin> fst ` set ps" using Cons.prems(1) kp by auto
  have "fst ` set ps \<inter> fst ` set (acc @ [(k, p\<lparr>chat_id := k\<rparr>)]) = {}"
    using Cons.prems(2) d(2) kp by auto
  from Cons.IH [OF d(1) this] show ?case
    by (simp add: kp load_entry_dump_entry update_fresh [OF fresh])
qed

lemma reload_saved:
  assumes "distinct (map fst (posts st))"
  shows "PostStorage_init (storage_file (save_to_disk st))
     = \<lparr>posts = map (\<lambda>(k, p). (k, p\<lparr>chat_id := k\<rparr>)) (posts st),
        storage_file = storage_file (save_to_disk st)\<rparr>"
  using dump_posts_distinct [OF assms, of "[]"] load_entries_dumped [OF assms, of "[]"]
  by (simp add: PostStorage_init_def load_from_disk_def save_to_disk_def)

lemma map_of_fix_chat_id:
  "map_of (map (\<lambda>(k, p). (k, p\<lparr>chat_id := k\<rparr>)) ps) c
     = map_option (\<lambda>p. p\<lparr>chat_id := c\<rparr>) (map_of ps c)"
  by (induction ps) auto

lemma distinct_load_entries:
  "distinct (map fst acc) \<Longrightarrow> distinct (map fst (fst (load_entries acc data)))"
  by (induction acc data rule: load_entries.induct) (auto simp: distinct_update split: sum.splits)

lemma distinct_init: "distinct (map fst (posts (PostStorage_init f)))"
proof (cases f)
  case None
  then show ?thesis by (simp add: PostStorage_init_def load_from_disk_def)
next
  case (Some snap)
  show ?thesis
  proof (cases snap)
    case Unparseable
    with Some show ?thesis by (simp add: PostStorage_init_def load_from_disk_def)
  next
    case (Parsed data)
    obtain ps r where l: "load_entries [] data = (ps, r)" by (cases "load_entries [] data")
    have "distinct (map fst ps)" using distinct_load_entries [of "[]" data] l by simp
    with Some Parsed l show ?thesis
      by (cases r) (simp_all add: PostStorage_init_def load_from_disk_def)
  qed
qed

lemma posts_save_to_disk [simp]: "posts (save_to_disk st) = posts st"
  by (simp add: save_to_disk_def)

lemma distinct_apply_op:
  "distinct (map fst (posts st)) \<Longrightarrow> distinct (map fst (posts (apply_op st op)))"
  by (cases op)
     (simp_all add: save_def delete_def update_text_def update_image_def clear_def
        distinct_update distinct_delete split: option.splits)

lemma distinct_foldl_apply_op:
  "distinct (map fst (posts st)) \<Longrightarrow> distinct (map fst (posts (foldl apply_op st ops)))"
  by (induction ops arbitrary: st) (simp_all add: distinct_apply_op)

lemma distinct_store_after: "distinct (map fst (posts (store_after f ops)))"
  by (simp add: store_after_def distinct_foldl_apply_op distinct_init)

lemma count_le_one: "distinct (map fst ps) \<Longrightarrow> length (filter (\<lambda>kp. fst kp = c) ps) \<le> 1"
  by (induction ps) (auto simp: filter_empty_conv image_iff)

text \<open>
  Claim C3. In every store a process can hold there is at most one record for a chat
  id; a second \<^verbatim>\<open>save\<close> for the same chat id leaves the store, snapshot included, as if
  the first had never been made: \<^verbatim>\<open>get\<close> returns the second record, and it is the only
  one for that chat id.
\<close>

theorem put_replaces_record:
  "length (filter (\<lambda>kp. fst kp = c) (posts (store_after f ops))) \<le> 1
   \<and> save (save (store_after f ops) cid first) cid second = save (store_after f ops) cid second
   \<and> get (save (save (store_after f ops) cid first) cid second) cid = Some second
   \<and> length (filter (\<lambda>kp. fst kp = cid)
         (posts (save (save (store_after f ops) cid first) cid second))) = 1"
proof -
  let ?st = "store_after f ops"
  have 1: "length (filter (\<lambda>kp. fst kp = c) (posts ?st)) \<le> 1"
    using distinct_store_after by (rule count_le_one)
  have 2: "save (save ?st cid first) cid second = save ?st cid second"
    by (simp add: save_def save_to_disk_def)
  have 3: "get (save ?st cid second) cid = Some second"
    by (simp add: save_def get_def update_conv')
  have "save ?st cid second = store_after f (ops @ [Save cid second])"
    by (simp add: store_after_def)
  then have "distinct (map fst (posts (save ?st cid second)))"
    by (simp only: distinct_store_after)
  then have "length (filter (\<lambda>kp. fst kp = cid) (posts (save ?st cid second))) \<le> 1"
    by (rule count_le_one)
  moreover have "filter (\<lambda>kp. fst kp = cid) (posts (save ?st cid second)) \<noteq> []"
    using 3 by (force simp: get_def filter_empty_conv dest!: map_of_SomeD)
  ultimately have 4: "length (filter (\<lambda>kp. fst kp = cid) (posts (save ?st cid second))) = 1"
    by (cases "filter (\<lambda>kp. fst kp = cid) (posts (save ?st cid second))") auto
  show ?thesis using 1 2 3 4 by simp
qed

text \<open>
  Claim C4. After \<^verbatim>\<open>save\<close>, a new process that loads the snapshot finds for that chat id
  the record that was saved, with \<^verbatim>\<open>chat_id\<close> read from the key: text, original text,
  image bytes (through base64) and message id are those of the saved record, and the
  record is equal to it when it was saved under its own chat id.
\<close>

theorem save_reload_roundtrip:
  "get (PostStorage_init (storage_file (save (store_after f ops) cid post_data))) cid
     = Some (post_data\<lparr>chat_id := cid\<rparr>)
   \<and> (chat_id post_data = cid \<longrightarrow>
        get (PostStorage_init (storage_file (save (store_after f ops) cid post_data))) cid
          = Some post_data)"
proof -
  let ?st = "(store_after f ops)\<lparr>posts := AList.update cid post_data (posts (store_after f ops))\<rparr>"
  have "distinct (map fst (posts ?st))"
    using distinct_store_after [of f ops] by (simp add: distinct_update)
  from reload_saved [OF this]
  have "get (PostStorage_init (storage_file (save (store_after f ops) cid post_data))) cid
     = Some (post_data\<lparr>chat_id := cid\<rparr>)"
    by (simp add: save_def get_def map_of_fix_chat_id update_conv')
  moreover have "post_data\<lparr>chat_id := cid\<rparr> = post_data" if "chat_id post_data = cid"
    using that by simp
  ultimately show ?thesis by simp
qed

text \<open>
  Claim C6. \<^verbatim>\<open>update_text\<close> and \<^verbatim>\<open>update_image\<close> on a chat id without a record return
  \<^verbatim>\<open>False\<close> and the store as it was, the snapshot included. On a chat id with a record
  they return \<^verbatim>\<open>True\<close>, that record differs from the old one in the one field only,
  and the records of the other chat ids are the same.
\<close>

theorem update_absent_and_present:
  "(get st cid = None \<longrightarrow>
      update_text st cid new_text = (False, st) \<and> update_image st cid new_image = (False, st))
   \<and> (get st cid = Some post \<longrightarrow>
      fst (update_text st cid new_text) \<and>
      get (snd (update_text st cid new_text)) cid = Some (post\<lparr>text' := new_text\<rparr>) \<and>
      fst (update_image st cid new_image) \<and>
      get (snd (update_image st cid new_image)) cid = Some (post\<lparr>image' := new_image\<rparr>) \<and>
      (\<forall>other. other \<noteq> cid \<longrightarrow>
         get (snd (update_text st cid new_text)) other = get st other \<and>
         get (snd (update_image st cid new_image)) other = get st other))"
  by (simp add: update_text_def update_image_def get_def update_conv')

lemma load_entries_append:
  "load_entries acc (xs @ ys) =
     (case load_entries acc xs of (ps, None) \<Rightarrow> load_entries ps ys | (ps, Some e) \<Rightarrow> (ps, Some e))"
  by (induction acc xs rule: load_entries.induct) (auto split: sum.splits)

text \<open>
  Claim C5, as the code has it. Loading never raises: the result is a store. When the
  snapshot cannot be parsed, the store is empty and the file is removed. When an entry
  of a parsed snapshot raises, the file is removed and the store holds the records of
  the entries before it, which were assigned before the exception; it is empty when the
  first entry is the faulty one.
\<close>

theorem corrupt_snapshot_load:
  "PostStorage_init (Some Unparseable) = \<lparr>posts = [], storage_file = None\<rparr>
   \<and> (load_entries [] good = (ps, None) \<and> load_entry chat_id_str post_dict = Inl e \<longrightarrow>
        PostStorage_init (Some (Parsed (good @ (chat_id_str, post_dict) # rest)))
          = \<lparr>posts = ps, storage_file = None\<rparr>)"
  by (simp add: PostStorage_init_def load_from_disk_def load_entries_append)

section \<open>The retry loops of the backend\<close>

lemma snd_text_attempt: "snd (text_attempt g p) = g\<lparr>text_calls := text_calls g @ [p]\<rparr>"
  by (simp add: text_attempt_def Let_def split: outcome.splits)

lemma text_attempt_fails:
  "text_fails g (length (text_calls g)) p \<Longrightarrow>
   text_attempt g p = (Inl (text_failure g (length (text_calls g)) p), g\<lparr>text_calls := text_calls g @ [p]\<rparr>)"
  by (simp add: text_attempt_def text_fails_def text_failure_def Let_def split: outcome.splits)

lemma text_attempts_frame:
  "\<exists>k. 1 \<le> k \<and> k \<le> Suc n \<and> snd (text_attempts n g p) = g\<lparr>text_calls := text_calls g @ replicate k p\<rparr>"
proof (induction n arbitrary: g)
  case 0
  have "snd (text_attempts 0 g p) = g\<lparr>text_calls := text_calls g @ replicate 1 p\<rparr>"
    by (simp add: snd_text_attempt)
  then show ?case by (intro exI [of _ 1]) simp
next
  case (Suc n)
  obtain r g' where a: "text_attempt g p = (r, g')" by (cases "text_attempt g p")
  then have g': "g' = g\<lparr>text_calls := text_calls g @ [p]\<rparr>"
    using snd_text_attempt [of g p] by simp
  show ?case
  proof (cases r)
    case (Inr t)
    with a g' have "snd (text_attempts (Suc n) g p) = g\<lparr>text_calls := text_calls g @ replicate 1 p\<rparr>"
      by simp
    then show ?thesis by (intro exI [of _ 1]) simp
  next
    case (Inl e)
    from Suc.IH [of g'] obtain k where k: "1 \<le> k" "k \<le> Suc n"
      "snd (text_attempts n g' p) = g'\<lparr>text_calls := text_calls g' @ replicate k p\<rparr>" by blast
    have "snd (text_attempts (Suc n) g p) = g\<lparr>text_calls := text_calls g @ replicate (Suc k) p\<rparr>"
      using a Inl k(3) by (simp add: g')
    with k show ?thesis by (intro exI [of _ "Suc k"]) simp
  qed
qed

lemma text_attempts_all_fail:
  assumes "text_fails g (length (text_calls g)) p"
    and "text_fails g (length (text_calls g) + 1) p"
    and "text_fails g (length (text_calls g) + 2) p"
  shows "text_attempts 2 g p =
    (Inl (text_failure g (length (text_calls g) + 2) p), g\<lparr>text_calls := text_calls g @ [p, p, p]\<rparr>)"
proof -
  let ?n = "length (text_calls g)"
  let ?g1 = "g\<lparr>text_calls := text_calls g @ [p]\<rparr>"
  let ?g2 = "?g1\<lparr>text_calls := text_calls ?g1 @ [p]\<rparr>"
  have 1: "text_attempt g p = (Inl (text_failure g ?n p), ?g1)"
    using assms(1) by (rule text_attempt_fails)
  have f1: "text_fails ?g1 (length (text_calls ?g1)) p"
    using assms(2) by (simp add: text_fails_def)
  have 2: "text_attempt ?g1 p = (Inl (text_failure ?g1 (length (text_calls ?g1)) p), ?g2)"
    using f1 by (rule text_attempt_fails)
  have f2: "text_fails ?g2 (length (text_calls ?g2)) p"
    using assms(3) by (simp add: text_fails_def)
  have 3: "text_attempt ?g2 p = (Inl (text_failure ?g2 (length (text_calls ?g2)) p),
      ?g2\<lparr>text_calls := text_calls ?g2 @ [p]\<rparr>)"
    using f2 by (rule text_attempt_fails)
  have "text_attempts 2 g p = text_attempt ?g2 p"
    by (simp add: numeral_2_eq_2 1 2)
  with 3 show ?thesis by (simp add: text_failure_def)
qed

lemma placeholder_nonempty: "create_placeholder_image g \<noteq> []"
  by (simp add: create_placeholder_image_def png_signature_def)

lemma extract_image_nonempty: "extract_image g r = Inr img \<Longrightarrow> img \<noteq> []"
  by (auto simp: extract_image_def Let_def truthy_data_def placeholder_nonempty
      split: outcome.splits image_response.splits option.splits inline_data.splits sum.splits if_splits)

lemma image_attempt_frame:
  "snd (image_attempt g p) = g\<lparr>image_calls := image_calls g @ [p]\<rparr>"
  by (simp add: image_attempt_def Let_def)

lemma image_attempt_nonempty: "image_attempt g p = (Inr img, g') \<Longrightarrow> img \<noteq> []"
  by (auto simp: image_attempt_def Let_def dest: extract_image_nonempty)

lemma image_attempts_frame:
  "\<exists>k. 1 \<le> k \<and> k \<le> Suc n \<and>
     snd (image_attempts n g p) = g\<lparr>image_calls := image_calls g @ replicate k p\<rparr>"
proof (induction n arbitrary: g)
  case 0
  obtain r g' where a: "image_attempt g p = (r, g')" by (cases "image_attempt g p")
  then have g': "g' = g\<lparr>image_calls := image_calls g @ [p]\<rparr>"
    using image_attempt_frame [of g p] by simp
  have "snd (image_attempts 0 g p) = g\<lparr>image_calls := image_calls g @ replicate 1 p\<rparr>"
    using a g' by (cases r) simp_all
  then show ?case by (intro exI [of _ 1]) simp
next
  case (Suc n)
  obtain r g' where a: "image_attempt g p = (r, g')" by (cases "image_attempt g p")
  then have g': "g' = g\<lparr>image_calls := image_calls g @ [p]\<rparr>"
    using image_attempt_frame [of g p] by simp
  show ?case
  proof (cases r)
    case (Inr t)
    with a g' have "snd (image_attempts (Suc n) g p) = g\<lparr>image_calls := image_calls g @ replicate 1 p\<rparr>"
      by simp
    then show ?thesis by (intro exI [of _ 1]) simp
  next
    case (Inl e)
    from Suc.IH [of g'] obtain k where k: "1 \<le> k" "k \<le> Suc n"
      "snd (image_attempts n g' p) = g'\<lparr>image_calls := image_calls g' @ replicate k p\<rparr>" by blast
    have "snd (image_attempts (Suc n) g p) = g\<lparr>image_calls := image_calls g @ replicate (Suc k) p\<rparr>"
      using a Inl k(3) by (simp add: g')
    with k show ?thesis by (intro exI [of _ "Suc k"]) simp
  qed
qed

lemma image_attempts_nonempty: "fst (image_attempts n g p) \<noteq> []"
proof (induction n arbitrary: g)
  case 0
  show ?case
    by (auto simp: placeholder_nonempty split: prod.splits sum.splits dest: image_attempt_nonempty)
next
  case (Suc n)
  then show ?case
    by (auto split: prod.splits sum.splits dest: image_attempt_nonempty)
qed

lemma generate_image_sync_nonempty: "fst (generate_image_sync g p) \<noteq> []"
  by (simp add: generate_image_sync_def image_attempts_nonempty)

lemma placeholder_frame [simp]:
  "create_placeholder_image (g\<lparr>image_calls := cs\<rparr>) = create_placeholder_image g"
  by (simp add: create_placeholder_image_def)

lemma extract_image_frame [simp]:
  "extract_image (g\<lparr>image_calls := cs\<rparr>) r = extract_image g r"
  by (simp add: extract_image_def Let_def
      split: outcome.splits image_response.splits option.splits inline_data.splits sum.splits)

lemma image_attempt_fails:
  "image_fails g (length (image_calls g)) p \<Longrightarrow>
   \<exists>e. image_attempt g p = (Inl e, g\<lparr>image_calls := image_calls g @ [p]\<rparr>)"
  by (auto simp: image_attempt_def image_fails_def Let_def extract_image_def
      split: outcome.splits image_response.splits)

lemma image_fails_frame [simp]:
  "image_fails (g\<lparr>image_calls := cs\<rparr>) i p = image_fails g i p"
  by (simp add: image_fails_def)

lemma image_attempts_all_fail:
  assumes "image_fails g (length (image_calls g)) p"
    and "image_fails g (length (image_calls g) + 1) p"
    and "image_fails g (length (image_calls g) + 2) p"
  shows "generate_image_sync g p =
    (create_placeholder_image g, g\<lparr>image_calls := image_calls g @ [p, p, p]\<rparr>)"
proof -
  let ?g1 = "g\<lparr>image_calls := image_calls g @ [p]\<rparr>"
  let ?g2 = "?g1\<lparr>image_calls := image_calls ?g1 @ [p]\<rparr>"
  let ?g3 = "?g2\<lparr>image_calls := image_calls ?g2 @ [p]\<rparr>"
  obtain e1 where 1: "image_attempt g p = (Inl e1, ?g1)"
    using image_attempt_fails [OF assms(1)] by blast
  have "image_fails ?g1 (length (image_calls ?g1)) p" using assms(2) by simp
  then obtain e2 where 2: "image_attempt ?g1 p = (Inl e2, ?g2)"
    using image_attempt_fails [of ?g1 p] by blast
  have "image_fails ?g2 (length (image_calls ?g2)) p" using assms(3) by simp
  then obtain e3 where 3: "image_attempt ?g2 p = (Inl e3, ?g3)"
    using image_attempt_fails [of ?g2 p] by blast
  show ?thesis
    using 1 2 3 by (simp add: generate_image_sync_def numeral_2_eq_2)
qed

text \<open>The first attempt decides when the model answers with a text, or with a response.\<close>

lemma text_first_answer:
  assumes "text_model g (length (text_calls g)) p = Returned t" and "t \<noteq> []" and "loggable p"
  shows "text_attempts n g p = (Inr (strip t), g\<lparr>text_calls := text_calls g @ [p]\<rparr>)"
  using assms by (cases n) (simp_all add: text_attempt_def)

lemma image_first_bytes:
  assumes "image_model g (length (image_calls g)) p
      = Returned (ImageResponse (Some (DataBytes b)) parts_data)" and "b \<noteq> []"
  shows "generate_image_sync g p = (b, g\<lparr>image_calls := image_calls g @ [p]\<rparr>)"
  using assms
  by (simp add: generate_image_sync_def numeral_2_eq_2 image_attempt_def extract_image_def
      truthy_data_def)

lemma image_first_no_data:
  assumes "image_model g (length (image_calls g)) p = Returned (ImageResponse None None)"
  shows "generate_image_sync g p =
    (create_placeholder_image g, g\<lparr>image_calls := image_calls g @ [p]\<rparr>)"
  using assms
  by (simp add: generate_image_sync_def numeral_2_eq_2 image_attempt_def extract_image_def
      truthy_data_def)

section \<open>Dispatch of a message by the session flags\<close>

lemmas world_ops = emit_def pop_flag_def set_flag_def

lemma map_fst_update_present:
  "map_of al k = Some v' \<Longrightarrow> map fst (AList.update k v al) = map fst al"
  by (induction al) (auto split: if_splits)

lemma keys_update_text: "map fst (posts (snd (update_text st cid t))) = map fst (posts st)"
  by (simp add: update_text_def get_def map_fst_update_present split: option.splits)

lemma keys_update_image: "map fst (posts (snd (update_image st cid i))) = map fst (posts st)"
  by (simp add: update_image_def get_def map_fst_update_present split: option.splits)

lemma text_attempts_calls:
  "\<exists>k. 1 \<le> k \<and> k \<le> Suc n \<and> text_calls (snd (text_attempts n g p)) = text_calls g @ replicate k p"
  using text_attempts_frame [of n g p] by auto

lemma filter_replicate_not: "\<not> P x \<Longrightarrow> filter P (replicate k x) = []"
  by (induction k) auto

lemma edit_no_shorten:
  "filter is_shorten (text_calls (snd (edit_text_with_instruction g c i))) = filter is_shorten (text_calls g)"
proof -
  obtain k where "text_calls (snd (text_attempts 2 g (EditPrompt i c))) = text_calls g @ replicate k (EditPrompt i c)"
    using text_attempts_calls [of 2 g "EditPrompt i c"] by blast
  then show ?thesis
    by (simp add: edit_text_with_instruction_def filter_replicate_not is_shorten_def)
qed

text \<open>Field by field: what the three input handlers do.\<close>

lemma manual_input_fields:
  "user_data (handle_manual_edit_input w m) = (user_data w)(''waiting_for_manual_edit'' := None)"
  "gemini (handle_manual_edit_input w m) = gemini w"
  "map fst (posts (storage (handle_manual_edit_input w m))) = map fst (posts (storage w))"
  by (simp_all add: handle_manual_edit_input_def world_ops Let_def keys_update_text split: option.splits)

lemma ai_input_fields:
  "user_data (handle_ai_edit_input w m) = (user_data w)(''waiting_for_ai_edit'' := None)"
  "filter is_shorten (text_calls (gemini (handle_ai_edit_input w m))) = filter is_shorten (text_calls (gemini w))"
  "map fst (posts (storage (handle_ai_edit_input w m))) = map fst (posts (storage w))"
proof -
  show "user_data (handle_ai_edit_input w m) = (user_data w)(''waiting_for_ai_edit'' := None)"
    by (simp add: handle_ai_edit_input_def world_ops Let_def split: option.splits prod.splits sum.splits)
  show "map fst (posts (storage (handle_ai_edit_input w m))) = map fst (posts (storage w))"
    by (simp add: handle_ai_edit_input_def world_ops Let_def keys_update_text
        split: option.splits prod.splits sum.splits)
  show "filter is_shorten (text_calls (gemini (handle_ai_edit_input w m))) = filter is_shorten (text_calls (gemini w))"
  proof (cases "get (storage w) (msg_chat_id m)")
    case None
    then show ?thesis by (simp add: handle_ai_edit_input_def world_ops Let_def)
  next
    case (Some post_data)
    let ?c = "if truthy (original_text post_data) then original_text post_data else text' post_data"
    have "gemini (handle_ai_edit_input w m) = snd (edit_text_with_instruction (gemini w) ?c (msg_text m))"
      using Some by (simp add: handle_ai_edit_input_def world_ops Let_def split: prod.splits sum.splits)
    then show ?thesis by (simp only: edit_no_shorten)
  qed
qed

lemma image_upload_fields:
  "user_data (handle_image_upload w m) = (user_data w)(''waiting_for_image'' := None)"
  "gemini (handle_image_upload w m) = gemini w"
  "map fst (posts (storage (handle_image_upload w m))) = map fst (posts (storage w))"
  by (simp_all add: handle_image_upload_def world_ops Let_def keys_update_image split: option.splits)

lemma flags_set_cases:
  "flags_set w =
     (if flag w ''waiting_for_manual_edit'' then [''waiting_for_manual_edit''] else []) @
     (if flag w ''waiting_for_ai_edit'' then [''waiting_for_ai_edit''] else []) @
     (if flag w ''waiting_for_image'' then [''waiting_for_image''] else [])"
  by (simp add: flags_set_def)

text \<open>
  Claim C10. A message is given to the manual-edit handler when that flag is set, else
  to the AI-edit handler when that flag is set, else to the image handler when that flag
  is set; the result is that of this one handler. Whenever some flag is set, exactly
  the first set flag in this order is cleared and the others stay, no shortening call is
  made, and no record is created or removed: the message is not a new submission.
\<close>

theorem flagged_message_priority:
  "(flag w ''waiting_for_manual_edit'' \<longrightarrow>
      handle_message w (Some m) = handle_manual_edit_input w m)
   \<and> (\<not> flag w ''waiting_for_manual_edit'' \<and> flag w ''waiting_for_ai_edit'' \<longrightarrow>
      handle_message w (Some m) = handle_ai_edit_input w m)
   \<and> (\<not> flag w ''waiting_for_manual_edit'' \<and> \<not> flag w ''waiting_for_ai_edit''
        \<and> flag w ''waiting_for_image'' \<longrightarrow>
      handle_message w (Some m) = handle_image_upload w m)
   \<and> (flags_set w \<noteq> [] \<longrightarrow>
      user_data (handle_message w (Some m)) = (user_data w)(hd (flags_set w) := None)
      \<and> flags_set (handle_message w (Some m)) = tl (flags_set w)
      \<and> filter is_shorten (text_calls (gemini (handle_message w (Some m))))
          = filter is_shorten (text_calls (gemini w))
      \<and> map fst (posts (storage (handle_message w (Some m)))) = map fst (posts (storage w)))"
proof -
  have d: "flag w ''waiting_for_manual_edit'' \<longrightarrow> handle_message w (Some m) = handle_manual_edit_input w m"
    "\<not> flag w ''waiting_for_manual_edit'' \<and> flag w ''waiting_for_ai_edit'' \<longrightarrow>
      handle_message w (Some m) = handle_ai_edit_input w m"
    "\<not> flag w ''waiting_for_manual_edit'' \<and> \<not> flag w ''waiting_for_ai_edit''
        \<and> flag w ''waiting_for_image'' \<longrightarrow> handle_message w (Some m) = handle_image_upload w m"
    by (simp_all add: handle_message_def)
  have r: "flags_set w \<noteq> [] \<longrightarrow>
      user_data (handle_message w (Some m)) = (user_data w)(hd (flags_set w) := None)
      \<and> flags_set (handle_message w (Some m)) = tl (flags_set w)
      \<and> filter is_shorten (text_calls (gemini (handle_message w (Some m))))
          = filter is_shorten (text_calls (gemini w))
      \<and> map fst (posts (storage (handle_message w (Some m)))) = map fst (posts (storage w))"
  proof (cases "flag w ''waiting_for_manual_edit''")
    case True
    then show ?thesis
      by (simp add: handle_message_def manual_input_fields flags_set_cases flag_def)
  next
    case manual: False
    show ?thesis
    proof (cases "flag w ''waiting_for_ai_edit''")
      case True
      with manual show ?thesis
        by (simp add: handle_message_def ai_input_fields flags_set_cases flag_def)
    next
      case ai: False
      show ?thesis
      proof (cases "flag w ''waiting_for_image''")
        case True
        with manual ai show ?thesis
          by (simp add: handle_message_def image_upload_fields flags_set_cases flag_def)
      next
        case False
        with manual ai show ?thesis by (simp add: flags_set_cases)
      qed
    qed
  qed
  from d r show ?thesis by blast
qed

section \<open>Session flags and the edit modes\<close>

lemma callback_user_data:
  "user_data (handle_callback w q) =
     (if q_data q = ''upload_image'' then (user_data w)(''waiting_for_image'' \<mapsto> True)
      else if q_data q = ''ai_edit_text'' then (user_data w)(''waiting_for_ai_edit'' \<mapsto> True)
      else if q_data q = ''manual_edit_text'' then (user_data w)(''waiting_for_manual_edit'' \<mapsto> True)
      else if q_data q = ''cancel_operation''
        then (user_data w)(''waiting_for_manual_edit'' := None, ''waiting_for_ai_edit'' := None,
                           ''waiting_for_image'' := None)
      else user_data w)"
proof -
  have regen: "user_data (handle_regenerate_image w' q) = user_data w'" for w'
    by (simp add: handle_regenerate_image_def world_ops Let_def
        split: option.splits prod.splits sum.splits)
  have send: "user_data (handle_send w' q) = user_data w'" for w'
    by (simp add: handle_send_def world_ops split: option.splits)
  have cancel_op: "user_data (handle_cancel_operation w' q) =
      (user_data w')(''waiting_for_manual_edit'' := None, ''waiting_for_ai_edit'' := None,
                           ''waiting_for_image'' := None)" for w'
    by (simp add: handle_cancel_operation_def world_ops Let_def split: option.splits)
  show ?thesis
    by (simp add: handle_callback_def Let_def regen send cancel_op)
       (simp add: world_ops handle_cancel_def handle_edit_def handle_edit_image_def
          handle_edit_text_def handle_upload_image_def handle_ai_edit_text_def
          handle_manual_edit_text_def handle_back_to_preview_def handle_back_to_edit_def)
qed

lemma news_user_data: "user_data (handle_news w m) = user_data w"
  by (simp add: handle_news_def world_ops Let_def split: prod.splits sum.splits)

lemma message_user_data_idle:
  "flags_set w = [] \<Longrightarrow> user_data (handle_message w u) = user_data w"
  by (cases u) (simp_all add: handle_message_def flags_set_cases news_user_data split: if_splits)

lemma flags_set_user_data: "user_data w' = user_data w \<Longrightarrow> flags_set w' = flags_set w"
  by (simp add: flags_set_def flag_def)

lemma reset_flags: "flags_set (reset_command w) = []"
  by (simp add: reset_command_def flags_set_def flag_def world_ops)

text \<open>
  Claim C1, as the code has it. Each transition that enters an edit mode
  (\<^verbatim>\<open>upload_image\<close>, \<^verbatim>\<open>ai_edit_text\<close>, \<^verbatim>\<open>manual_edit_text\<close>) sets the flag it needs and
  leaves every other session flag as it was: it clears none, so a flag that is set stays
  set. Of the buttons, \<^verbatim>\<open>cancel_operation\<close> clears the three flags and every other one
  leaves the session data as it is; the reset command empties it. From a state with no
  flag set, one update of any kind leaves at most one flag set.
\<close>

theorem enter_edit_mode_keeps_other_flags:
  "user_data (handle_upload_image w q) = (user_data w)(''waiting_for_image'' \<mapsto> True)
   \<and> user_data (handle_ai_edit_text w q) = (user_data w)(''waiting_for_ai_edit'' \<mapsto> True)
   \<and> user_data (handle_manual_edit_text w q) = (user_data w)(''waiting_for_manual_edit'' \<mapsto> True)
   \<and> user_data (handle_callback w q) =
       (if q_data q = ''upload_image'' then (user_data w)(''waiting_for_image'' \<mapsto> True)
        else if q_data q = ''ai_edit_text'' then (user_data w)(''waiting_for_ai_edit'' \<mapsto> True)
        else if q_data q = ''manual_edit_text''
          then (user_data w)(''waiting_for_manual_edit'' \<mapsto> True)
        else if q_data q = ''cancel_operation''
          then (user_data w)(''waiting_for_manual_edit'' := None, ''waiting_for_ai_edit'' := None,
                             ''waiting_for_image'' := None)
        else user_data w)
   \<and> (q_data q = ''upload_image'' \<or> q_data q = ''ai_edit_text'' \<or> q_data q = ''manual_edit_text''
        \<longrightarrow> flag w key \<longrightarrow> flag (handle_callback w q) key)
   \<and> (q_data q = ''cancel_operation'' \<longrightarrow> flags_set (handle_callback w q) = [])
   \<and> user_data (reset_command w) = Map.empty
   \<and> flags_set (reset_command w) = []
   \<and> (flags_set w = [] \<longrightarrow> length (flags_set (dispatch w u)) \<le> 1)"
proof -
  have a: "user_data (handle_upload_image w q) = (user_data w)(''waiting_for_image'' \<mapsto> True)"
    "user_data (handle_ai_edit_text w q) = (user_data w)(''waiting_for_ai_edit'' \<mapsto> True)"
    "user_data (handle_manual_edit_text w q) = (user_data w)(''waiting_for_manual_edit'' \<mapsto> True)"
    by (simp_all add: handle_upload_image_def handle_ai_edit_text_def handle_manual_edit_text_def world_ops)
  note c = callback_user_data [of w q]
  have k: "flag (handle_callback w q) key"
    if "q_data q = ''upload_image'' \<or> q_data q = ''ai_edit_text'' \<or> q_data q = ''manual_edit_text''"
      and "flag w key"
    using that by (auto simp: flag_def c)
  have x: "flags_set (handle_callback w q) = []" if "q_data q = ''cancel_operation''"
    using that by (simp add: flags_set_def flag_def c)
  have r: "user_data (reset_command w) = Map.empty"
    by (simp add: reset_command_def world_ops)
  have b: "length (flags_set (dispatch w u)) \<le> 1" if idle: "flags_set w = []"
  proof (cases u)
    case (MessageUpdate mo)
    have "flags_set (handle_message w mo) = flags_set w"
      using idle by (intro flags_set_user_data message_user_data_idle)
    with idle MessageUpdate show ?thesis by simp
  next
    case (CallbackUpdate cq)
    have f: "\<not> flag w ''waiting_for_manual_edit''" "\<not> flag w ''waiting_for_ai_edit''"
      "\<not> flag w ''waiting_for_image''"
      using idle by (simp_all add: flags_set_cases split: if_splits)
    show ?thesis
      using f by (simp add: CallbackUpdate flags_set_def flag_def callback_user_data)
  next
    case ResetCommand
    then show ?thesis by (simp add: reset_flags)
  qed
  from a c k x r reset_flags [of w] b show ?thesis by blast
qed

text \<open>
  Claim C2, as the code has it. When \<^verbatim>\<open>waiting_for_image\<close> is set, no flag of higher
  priority is, and the next message carries no photo, the controller replies
  "please send an image" and the flag is cleared: no flag is set afterwards, and the
  store and the backend are untouched.
\<close>

theorem image_upload_without_photo_clears_flag:
  assumes "flag w ''waiting_for_image''"
    and "\<not> flag w ''waiting_for_manual_edit''" and "\<not> flag w ''waiting_for_ai_edit''"
    and "msg_photo m = []"
  shows "sent (handle_message w (Some m)) = sent w @ [ReplyText PleaseSendImage None]
     \<and> user_data (handle_message w (Some m)) = (user_data w)(''waiting_for_image'' := None)
     \<and> flags_set (handle_message w (Some m)) = []
     \<and> storage (handle_message w (Some m)) = storage w
     \<and> gemini (handle_message w (Some m)) = gemini w"
  using assms
  by (simp add: handle_message_def handle_image_upload_def world_ops Let_def flags_set_def flag_def)

text \<open>
  Claim C7. When \<^verbatim>\<open>waiting_for_ai_edit\<close> is set (and the manual flag is not), the chat has
  a record, and the three calls of the text model for the edit all fail, the controller
  sends the processing notice and then the error of the last attempt, the flag is
  cleared, and the store is the same as before: text, original text and image of the
  record are unchanged. Exactly three calls were made.
\<close>

theorem ai_edit_backend_exhausted:
  assumes "flag w ''waiting_for_ai_edit''" and "\<not> flag w ''waiting_for_manual_edit''"
    and "get (storage w) (msg_chat_id m) = Some post_data"
    and "text_fails (gemini w) (length (text_calls (gemini w))) (ai_edit_prompt post_data m)"
    and "text_fails (gemini w) (length (text_calls (gemini w)) + 1) (ai_edit_prompt post_data m)"
    and "text_fails (gemini w) (length (text_calls (gemini w)) + 2) (ai_edit_prompt post_data m)"
  shows "sent (handle_message w (Some m)) =
           sent w @ [ReplyText AiEditing None,
                     EditProcessing (EditError (text_failure (gemini w)
                        (length (text_calls (gemini w)) + 2) (ai_edit_prompt post_data m)))]
     \<and> \<not> flag (handle_message w (Some m)) ''waiting_for_ai_edit''
     \<and> storage (handle_message w (Some m)) = storage w
     \<and> get (storage (handle_message w (Some m))) (msg_chat_id m) = Some post_data
     \<and> text_calls (gemini (handle_message w (Some m))) =
         text_calls (gemini w) @ replicate 3 (ai_edit_prompt post_data m)"
proof -
  let ?c = "if truthy (original_text post_data) then original_text post_data else text' post_data"
  have e: "edit_text_with_instruction (gemini w) ?c (msg_text m) =
      (Inl (text_failure (gemini w) (length (text_calls (gemini w)) + 2) (ai_edit_prompt post_data m)),
       (gemini w)\<lparr>text_calls := text_calls (gemini w) @
          [ai_edit_prompt post_data m, ai_edit_prompt post_data m, ai_edit_prompt post_data m]\<rparr>)"
    using text_attempts_all_fail [OF assms(4,5,6)]
    by (simp add: edit_text_with_instruction_def ai_edit_prompt_def)
  have "handle_message w (Some m) = handle_ai_edit_input w m"
    using assms(1,2) by (simp add: handle_message_def)
  then show ?thesis
    using assms(3) e
    by (simp add: handle_ai_edit_input_def world_ops Let_def flag_def numeral_3_eq_3)
qed

section \<open>Regenerating the image\<close>

lemma get_update_image:
  "get st cid = Some post_data \<Longrightarrow>
   get (snd (update_image st cid img)) cid = Some (post_data\<lparr>image' := img\<rparr>)"
  by (simp add: update_image_def get_def update_conv')

lemma text_attempts_image_calls:
  "image_calls (snd (text_attempts n g p)) = image_calls g"
  using text_attempts_frame [of n g p] by auto

text \<open>
  Claim C8, as the code has it. For a chat with a record, \<^verbatim>\<open>regenerate_image\<close> first asks
  the text model for the image prompt. If the prompt is produced (as it is when the
  first answer of the text model is not empty), no error is reported and the image of
  the record is replaced through \<^verbatim>\<open>update_image\<close> by a non-empty image: the bytes of the
  first answer of the image model when it carries non-empty bytes, the placeholder when
  it carries no image data, and the placeholder when the image model fails on all three
  attempts. If the prompt step fails (as it does when the text model fails on all three
  attempts), the failure reaches the controller, which reports it; the store is
  unchanged and the image model is not called.
\<close>

theorem regenerate_image_outcomes:
  assumes "q_data q = ''regenerate_image''"
    and "get (storage w) (q_chat_id q) = Some post_data"
  shows "(generate_image_prompt (gemini w) (text' post_data) = (Inr image_prompt, g1) \<longrightarrow>
            get (storage (handle_callback w q)) (q_chat_id q)
              = Some (post_data\<lparr>image' := fst (generate_image_sync g1 image_prompt)\<rparr>)
            \<and> fst (generate_image_sync g1 image_prompt) \<noteq> []
            \<and> sent (handle_callback w q) =
                sent w @ [Answer None False, Answer (Some RegeneratingImage) False,
                          ReplyText RegeneratingImage None,
                          EditMessageMedia (fst (generate_image_sync g1 image_prompt))
                            (text' post_data) get_post_actions_keyboard,
                          DeleteProcessing]
            \<and> (image_model (gemini w) (length (image_calls (gemini w))) image_prompt
                  = Returned (ImageResponse (Some (DataBytes b)) parts_data) \<and> b \<noteq> [] \<longrightarrow>
                get (storage (handle_callback w q)) (q_chat_id q) = Some (post_data\<lparr>image' := b\<rparr>)
                \<and> image_calls (gemini (handle_callback w q))
                    = image_calls (gemini w) @ [image_prompt])
            \<and> (image_model (gemini w) (length (image_calls (gemini w))) image_prompt
                  = Returned (ImageResponse None None) \<longrightarrow>
                get (storage (handle_callback w q)) (q_chat_id q)
                  = Some (post_data\<lparr>image' := create_placeholder_image (gemini w)\<rparr>)
                \<and> image_calls (gemini (handle_callback w q))
                    = image_calls (gemini w) @ [image_prompt])
            \<and> (image_fails (gemini w) (length (image_calls (gemini w))) image_prompt
                \<and> image_fails (gemini w) (length (image_calls (gemini w)) + 1) image_prompt
                \<and> image_fails (gemini w) (length (image_calls (gemini w)) + 2) image_prompt \<longrightarrow>
                get (storage (handle_callback w q)) (q_chat_id q)
                  = Some (post_data\<lparr>image' := create_placeholder_image (gemini w)\<rparr>)
                \<and> image_calls (gemini (handle_callback w q))
                    = image_calls (gemini w) @ [image_prompt, image_prompt, image_prompt]))
     \<and> create_placeholder_image (gemini w) \<noteq> []
     \<and> (text_model (gemini w) (length (text_calls (gemini w))) (ImagePromptPrompt (text' post_data))
           = Returned t \<and> t \<noteq> [] \<longrightarrow>
         generate_image_prompt (gemini w) (text' post_data)
           = (Inr (strip t), (gemini w)\<lparr>text_calls := text_calls (gemini w)
                @ [ImagePromptPrompt (text' post_data)]\<rparr>))
     \<and> (generate_image_prompt (gemini w) (text' post_data) = (Inl e, g1) \<longrightarrow>
            storage (handle_callback w q) = storage w
            \<and> image_calls (gemini (handle_callback w q)) = image_calls (gemini w)
            \<and> sent (handle_callback w q) =
                sent w @ [Answer None False, Answer (Some RegeneratingImage) False,
                          ReplyText RegeneratingImage None,
                          EditProcessing (ImageGenError e)])
     \<and> (text_fails (gemini w) (length (text_calls (gemini w))) (ImagePromptPrompt (text' post_data))
        \<and> text_fails (gemini w) (length (text_calls (gemini w)) + 1) (ImagePromptPrompt (text' post_data))
        \<and> text_fails (gemini w) (length (text_calls (gemini w)) + 2) (ImagePromptPrompt (text' post_data)) \<longrightarrow>
         generate_image_prompt (gemini w) (text' post_data)
           = (Inl (text_failure (gemini w) (length (text_calls (gemini w)) + 2)
                    (ImagePromptPrompt (text' post_data))),
              (gemini w)\<lparr>text_calls := text_calls (gemini w)
                @ [ImagePromptPrompt (text' post_data), ImagePromptPrompt (text' post_data),
                   ImagePromptPrompt (text' post_data)]\<rparr>))"
proof -
  let ?w1 = "emit w [Answer None False]"
  let ?p = "ImagePromptPrompt (text' post_data)"
  have h: "handle_callback w q = handle_regenerate_image ?w1 q"
    using assms(1) by (simp add: handle_callback_def Let_def)
  have A: "get (storage (handle_callback w q)) (q_chat_id q)
              = Some (post_data\<lparr>image' := fst (generate_image_sync g1 image_prompt)\<rparr>)
            \<and> fst (generate_image_sync g1 image_prompt) \<noteq> []
            \<and> sent (handle_callback w q) =
                sent w @ [Answer None False, Answer (Some RegeneratingImage) False,
                          ReplyText RegeneratingImage None,
                          EditMessageMedia (fst (generate_image_sync g1 image_prompt))
                            (text' post_data) get_post_actions_keyboard,
                          DeleteProcessing]
            \<and> (image_model (gemini w) (length (image_calls (gemini w))) image_prompt
                  = Returned (ImageResponse (Some (DataBytes b)) parts_data) \<and> b \<noteq> [] \<longrightarrow>
                get (storage (handle_callback w q)) (q_chat_id q) = Some (post_data\<lparr>image' := b\<rparr>)
                \<and> image_calls (gemini (handle_callback w q))
                    = image_calls (gemini w) @ [image_prompt])
            \<and> (image_model (gemini w) (length (image_calls (gemini w))) image_prompt
                  = Returned (ImageResponse None None) \<longrightarrow>
                get (storage (handle_callback w q)) (q_chat_id q)
                  = Some (post_data\<lparr>image' := create_placeholder_image (gemini w)\<rparr>)
                \<and> image_calls (gemini (handle_callback w q))
                    = image_calls (gemini w) @ [image_prompt])
            \<and> (image_fails (gemini w) (length (image_calls (gemini w))) image_prompt
                \<and> image_fails (gemini w) (length (image_calls (gemini w)) + 1) image_prompt
                \<and> image_fails (gemini w) (length (image_calls (gemini w)) + 2) image_prompt \<longrightarrow>
                get (storage (handle_callback w q)) (q_chat_id q)
                  = Some (post_data\<lparr>image' := create_placeholder_image (gemini w)\<rparr>)
                \<and> image_calls (gemini (handle_callback w q))
                    = image_calls (gemini w) @ [image_prompt, image_prompt, image_prompt])"
    if ok: "generate_image_prompt (gemini w) (text' post_data) = (Inr image_prompt, g1)"
  proof -
    obtain img g2 where s: "generate_image_sync g1 image_prompt = (img, g2)"
      by (cases "generate_image_sync g1 image_prompt")
    have ne: "img \<noteq> []" using generate_image_sync_nonempty [of g1 image_prompt] s by simp
    obtain k where "snd (text_attempts 2 (gemini w) ?p)
        = (gemini w)\<lparr>text_calls := text_calls (gemini w) @ replicate k ?p\<rparr>"
      using text_attempts_frame [of 2 "gemini w"] by blast
    then have g1: "g1 = (gemini w)\<lparr>text_calls := text_calls (gemini w) @ replicate k ?p\<rparr>"
      using ok by (simp add: generate_image_prompt_def)
    have fr: "create_placeholder_image g1 = create_placeholder_image (gemini w)"
      "image_model g1 = image_model (gemini w)" "image_calls g1 = image_calls (gemini w)"
      "\<And>i. image_fails g1 i image_prompt = image_fails (gemini w) i image_prompt"
      by (simp_all add: g1 create_placeholder_image_def image_fails_def)
    have 1: "get (storage (handle_callback w q)) (q_chat_id q) = Some (post_data\<lparr>image' := img\<rparr>)"
      using assms(2) ok s ne
      by (simp add: h handle_regenerate_image_def world_ops Let_def get_update_image)
    have 2: "sent (handle_callback w q) =
                sent w @ [Answer None False, Answer (Some RegeneratingImage) False,
                          ReplyText RegeneratingImage None,
                          EditMessageMedia img (text' post_data) get_post_actions_keyboard,
                          DeleteProcessing]"
      using assms(2) ok s ne
      by (simp add: h handle_regenerate_image_def world_ops Let_def)
    have 3: "gemini (handle_callback w q) = g2"
      using assms(2) ok s ne
      by (simp add: h handle_regenerate_image_def world_ops Let_def)
    have 4: "img = b \<and> image_calls g2 = image_calls (gemini w) @ [image_prompt]"
      if "image_model (gemini w) (length (image_calls (gemini w))) image_prompt
                  = Returned (ImageResponse (Some (DataBytes b)) parts_data) \<and> b \<noteq> []"
      using image_first_bytes [of g1 image_prompt b parts_data] that s by (simp add: fr)
    have 5: "img = create_placeholder_image (gemini w)
        \<and> image_calls g2 = image_calls (gemini w) @ [image_prompt]"
      if "image_model (gemini w) (length (image_calls (gemini w))) image_prompt
                  = Returned (ImageResponse None None)"
      using image_first_no_data [of g1 image_prompt] that s by (simp add: fr)
    have 6: "img = create_placeholder_image (gemini w)
        \<and> image_calls g2 = image_calls (gemini w) @ [image_prompt, image_prompt, image_prompt]"
      if "image_fails (gemini w) (length (image_calls (gemini w))) image_prompt
                \<and> image_fails (gemini w) (length (image_calls (gemini w)) + 1) image_prompt
                \<and> image_fails (gemini w) (length (image_calls (gemini w)) + 2) image_prompt"
      using image_attempts_all_fail [of g1 image_prompt] that s by (simp add: fr)
    from 1 2 3 4 5 6 ne s show ?thesis by simp
  qed
  have P: "create_placeholder_image (gemini w) \<noteq> []" by (rule placeholder_nonempty)
  have T: "generate_image_prompt (gemini w) (text' post_data)
           = (Inr (strip t), (gemini w)\<lparr>text_calls := text_calls (gemini w) @ [?p]\<rparr>)"
    if "text_model (gemini w) (length (text_calls (gemini w))) ?p = Returned t \<and> t \<noteq> []"
    using text_first_answer [of "gemini w" ?p t 2] that
    by (simp add: generate_image_prompt_def loggable_def)
  have B: "storage (handle_callback w q) = storage w
            \<and> image_calls (gemini (handle_callback w q)) = image_calls (gemini w)
            \<and> sent (handle_callback w q) =
                sent w @ [Answer None False, Answer (Some RegeneratingImage) False,
                          ReplyText RegeneratingImage None,
                          EditProcessing (ImageGenError e)]"
    if bad: "generate_image_prompt (gemini w) (text' post_data) = (Inl e, g1)"
  proof -
    have "image_calls g1 = image_calls (gemini w)"
      using bad text_attempts_image_calls [of 2 "gemini w" ?p]
      by (simp add: generate_image_prompt_def)
    then show ?thesis
      using assms(2) bad
      by (simp add: h handle_regenerate_image_def world_ops Let_def)
  qed
  have F: "generate_image_prompt (gemini w) (text' post_data)
           = (Inl (text_failure (gemini w) (length (text_calls (gemini w)) + 2) ?p),
              (gemini w)\<lparr>text_calls := text_calls (gemini w) @ [?p, ?p, ?p]\<rparr>)"
    if "text_fails (gemini w) (length (text_calls (gemini w))) ?p
        \<and> text_fails (gemini w) (length (text_calls (gemini w)) + 1) ?p
        \<and> text_fails (gemini w) (length (text_calls (gemini w)) + 2) ?p"
    using text_attempts_all_fail [of "gemini w" ?p] that by (simp add: generate_image_prompt_def)
  from A P T B F show ?thesis by blast
qed

section \<open>New submissions\<close>

lemma get_save: "get (save st cid post_data) cid = Some post_data"
  by (simp add: save_def get_def update_conv')

lemma news_outcomes:
  assumes "flags_set w = []" and "candidate m"
  shows "(msg_photo m = [photo] \<and> \<not> msg_video m \<longrightarrow>
            image_calls (gemini (handle_message w (Some m))) = image_calls (gemini w)
            \<and> text_calls (gemini (handle_message w (Some m)))
                = text_calls (snd (shorten_news (gemini w) (news_text m)))
            \<and> (photo \<noteq> [] \<and> shorten_news (gemini w) (news_text m) = (Inr shortened_text, g1) \<longrightarrow>
                 get (storage (handle_message w (Some m))) (msg_chat_id m)
                   = Some \<lparr>text' = Some shortened_text, image' = photo, chat_id = msg_chat_id m,
                           original_text = news_text m, message_id = None\<rparr>))
     \<and> ((1 < length (msg_photo m) \<or> (msg_photo m \<noteq> [] \<and> msg_video m))
         \<and> shorten_news (gemini w) (news_text m) = (Inr shortened_text, g1)
         \<and> generate_image_prompt g1 (Some shortened_text) = (Inr image_prompt, g2) \<longrightarrow>
            get (storage (handle_message w (Some m))) (msg_chat_id m)
              = Some \<lparr>text' = Some shortened_text, image' = fst (generate_image_sync g2 image_prompt),
                      chat_id = msg_chat_id m, original_text = news_text m, message_id = None\<rparr>
            \<and> gemini (handle_message w (Some m)) = snd (generate_image_sync g2 image_prompt)
            \<and> length (image_calls (gemini w)) < length (image_calls (gemini (handle_message w (Some m)))))"
proof -
  have f: "\<not> flag w ''waiting_for_manual_edit''" "\<not> flag w ''waiting_for_ai_edit''"
      "\<not> flag w ''waiting_for_image''"
    using assms(1) by (simp_all add: flags_set_cases split: if_splits)
  have h: "handle_message w (Some m) = handle_news w m"
    using f by (simp add: handle_message_def)
  have c: "truthy (msg_text m) \<or> (msg_photo m \<noteq> [] \<and> truthy (msg_caption m))
      \<or> (msg_video m \<and> truthy (msg_caption m))"
    using assms(2) by (simp add: candidate_def)
  have one: "image_calls (gemini (handle_message w (Some m))) = image_calls (gemini w)
            \<and> text_calls (gemini (handle_message w (Some m)))
                = text_calls (snd (shorten_news (gemini w) (news_text m)))
            \<and> (photo \<noteq> [] \<and> shorten_news (gemini w) (news_text m) = (Inr shortened_text, g1) \<longrightarrow>
                 get (storage (handle_message w (Some m))) (msg_chat_id m)
                   = Some \<lparr>text' = Some shortened_text, image' = photo, chat_id = msg_chat_id m,
                           original_text = news_text m, message_id = None\<rparr>)"
    if p: "msg_photo m = [photo]" "\<not> msg_video m"
  proof -
    obtain r g' where s: "shorten_news (gemini w) (news_text m) = (r, g')"
      by (cases "shorten_news (gemini w) (news_text m)")
    have ic: "image_calls g' = image_calls (gemini w)"
      using s text_attempts_image_calls [of 2 "gemini w" "ShortenPrompt (news_text m)"]
      by (simp add: shorten_news_def)
    show ?thesis
    proof (cases r)
      case (Inl e)
      with s ic c p show ?thesis
        by (auto simp: h handle_news_def process_news_full_def world_ops Let_def news_text_def)
    next
      case (Inr t)
      with s ic c p show ?thesis
        by (auto simp: h handle_news_def process_news_full_def world_ops Let_def news_text_def get_save)
    qed
  qed
  have many: "get (storage (handle_message w (Some m))) (msg_chat_id m)
              = Some \<lparr>text' = Some shortened_text, image' = fst (generate_image_sync g2 image_prompt),
                      chat_id = msg_chat_id m, original_text = news_text m, message_id = None\<rparr>
            \<and> gemini (handle_message w (Some m)) = snd (generate_image_sync g2 image_prompt)
            \<and> length (image_calls (gemini w)) < length (image_calls (gemini (handle_message w (Some m))))"
    if p: "1 < length (msg_photo m) \<or> (msg_photo m \<noteq> [] \<and> msg_video m)"
      and s: "shorten_news (gemini w) (news_text m) = (Inr shortened_text, g1)"
      and ip: "generate_image_prompt g1 (Some shortened_text) = (Inr image_prompt, g2)"
  proof -
    obtain img g3 where gi: "generate_image_sync g2 image_prompt = (img, g3)"
      by (cases "generate_image_sync g2 image_prompt")
    have ne: "img \<noteq> []" using generate_image_sync_nonempty [of g2 image_prompt] gi by simp
    have no_user_image: "\<not> (msg_photo m \<noteq> [] \<and> length (msg_photo m) = 1 \<and> \<not> msg_video m)"
      using p by auto
    have "image_calls g1 = image_calls (gemini w)"
      using s text_attempts_image_calls [of 2 "gemini w" "ShortenPrompt (news_text m)"]
      by (simp add: shorten_news_def)
    moreover have "image_calls g2 = image_calls g1"
      using ip text_attempts_image_calls [of 2 g1 "ImagePromptPrompt (Some shortened_text)"]
      by (simp add: generate_image_prompt_def)
    moreover obtain k where "1 \<le> k" "g3 = g2\<lparr>image_calls := image_calls g2 @ replicate k image_prompt\<rparr>"
      using image_attempts_frame [of 2 g2 image_prompt] gi by (auto simp: generate_image_sync_def)
    ultimately have more: "length (image_calls (gemini w)) < length (image_calls g3)" by simp
    have "handle_news w m =
        emit ((emit w [ReplyText Processing None])\<lparr>gemini := g3,
                 storage := save (storage w) (msg_chat_id m)
                   \<lparr>text' = Some shortened_text, image' = img, chat_id = msg_chat_id m,
                    original_text = news_text m, message_id = None\<rparr>\<rparr>)
          ([EditProcessing GeneratingImage] @ [DeleteProcessing,
               ReplyPhoto img (Some shortened_text) get_post_actions_keyboard])"
      using c no_user_image s ip gi ne
      by (auto simp: handle_news_def process_news_full_def world_ops Let_def news_text_def)
    then show ?thesis using more gi by (simp add: h world_ops get_save)
  qed
  from one many show ?thesis by blast
qed

section \<open>The properties at concrete inputs\<close>

lemma get_store_a: "get store_a 7 = Some post_a"
  by (simp add: store_a_def store_after_def get_save)

lemma world_a_fields:
  "storage (world_a g flags) = store_a" "gemini (world_a g flags) = g" "sent (world_a g flags) = []"
  "user_data (world_a g flags) k = (if k \<in> set flags then Some True else None)"
proof -
  have "map_of (map (\<lambda>k. (k, True)) flags) k = (if k \<in> set flags then Some True else None)"
    by (induction flags) auto
  then show "user_data (world_a g flags) k = (if k \<in> set flags then Some True else None)"
    by (simp add: world_a_def)
qed (simp_all add: world_a_def)

text \<open>
  C10 at a concrete input: the manual and the image flag both set, then a text message.
\<close>

theorem flagged_message_priority_witness:
  "flags_set (world_a (backend steady_text_model steady_image_model)
       [''waiting_for_manual_edit'', ''waiting_for_image'']) \<noteq> []
   \<and> handle_message (world_a (backend steady_text_model steady_image_model)
       [''waiting_for_manual_edit'', ''waiting_for_image'']) (Some (text_message ''New text''))
     = handle_manual_edit_input (world_a (backend steady_text_model steady_image_model)
       [''waiting_for_manual_edit'', ''waiting_for_image'']) (text_message ''New text'')
   \<and> flags_set (handle_message (world_a (backend steady_text_model steady_image_model)
       [''waiting_for_manual_edit'', ''waiting_for_image'']) (Some (text_message ''New text'')))
     = [''waiting_for_image'']"
proof -
  let ?w = "world_a (backend steady_text_model steady_image_model)
       [''waiting_for_manual_edit'', ''waiting_for_image'']"
  have fs: "flags_set ?w = [''waiting_for_manual_edit'', ''waiting_for_image'']"
    by (simp add: flags_set_def flag_def world_a_fields)
  have m: "flag ?w ''waiting_for_manual_edit''" by (simp add: flag_def world_a_fields)
  have ne: "flags_set ?w \<noteq> []" by (simp add: fs)
  note c = flagged_message_priority [of ?w "text_message ''New text''"]
  have 1: "handle_message ?w (Some (text_message ''New text''))
          = handle_manual_edit_input ?w (text_message ''New text'')"
    using c [THEN conjunct1] m by (rule mp)
  have 2: "flags_set (handle_message ?w (Some (text_message ''New text''))) = tl (flags_set ?w)"
    using c [THEN conjunct2, THEN conjunct2, THEN conjunct2, THEN mp, OF ne] by (elim conjE)
  show ?thesis
  proof (intro conjI)
    show "flags_set ?w \<noteq> []" by (rule ne)
    show "handle_message ?w (Some (text_message ''New text''))
          = handle_manual_edit_input ?w (text_message ''New text'')" by (rule 1)
    show "flags_set (handle_message ?w (Some (text_message ''New text''))) = [''waiting_for_image'']"
      by (simp add: 2 fs)
  qed
qed

text \<open>
  C1 at concrete inputs: a fresh process, then the button \<^verbatim>\<open>upload_image\<close>; two flags
  set, then \<^verbatim>\<open>cancel_operation\<close>; the image flag set, then \<^verbatim>\<open>ai_edit_text\<close>.
\<close>

theorem enter_edit_mode_keeps_other_flags_witness:
  "flags_set (start (backend steady_text_model steady_image_model) None) = []
   \<and> length (flags_set (dispatch (start (backend steady_text_model steady_image_model) None)
        (CallbackUpdate (press ''upload_image'')))) \<le> 1
   \<and> q_data (press ''cancel_operation'') = ''cancel_operation''
   \<and> flags_set (handle_callback (world_a (backend steady_text_model steady_image_model)
        [''waiting_for_ai_edit'', ''waiting_for_image'']) (press ''cancel_operation'')) = []
   \<and> q_data (press ''ai_edit_text'') = ''ai_edit_text''
   \<and> flag (world_a (backend steady_text_model steady_image_model) [''waiting_for_image''])
        ''waiting_for_image''
   \<and> flag (handle_callback (world_a (backend steady_text_model steady_image_model)
        [''waiting_for_image'']) (press ''ai_edit_text'')) ''waiting_for_image''"
proof -
  let ?w = "start (backend steady_text_model steady_image_model) None"
  let ?v = "world_a (backend steady_text_model steady_image_model)
        [''waiting_for_ai_edit'', ''waiting_for_image'']"
  let ?x = "world_a (backend steady_text_model steady_image_model) [''waiting_for_image'']"
  have i: "flags_set ?w = []" by (simp add: flags_set_def flag_def start_def)
  have c: "q_data (press ''cancel_operation'') = ''cancel_operation''"
    and a: "q_data (press ''ai_edit_text'') = ''ai_edit_text''" by (simp_all add: press_def)
  have f: "flag ?x ''waiting_for_image''" by (simp add: flag_def world_a_fields)
  have 1: "length (flags_set (dispatch ?w (CallbackUpdate (press ''upload_image'')))) \<le> 1"
    using enter_edit_mode_keeps_other_flags [where w = ?w and u = "CallbackUpdate (press ''upload_image'')"] i by blast
  have 2: "flags_set (handle_callback ?v (press ''cancel_operation'')) = []"
    using enter_edit_mode_keeps_other_flags [where w = ?v and q = "press ''cancel_operation''"] c by blast
  have 3: "flag (handle_callback ?x (press ''ai_edit_text'')) ''waiting_for_image''"
    using enter_edit_mode_keeps_other_flags [where w = ?x and q = "press ''ai_edit_text''" and key = "''waiting_for_image''"] a f
    by blast
  from i c a f 1 2 3 show ?thesis by blast
qed

text \<open>
  Claim C1 as stated fails: after a submission, the user opens the image menu, presses
  \<^verbatim>\<open>upload_image\<close>, goes back on the preview message to the text menu and presses
  \<^verbatim>\<open>ai_edit_text\<close>. Each button pressed is on the keyboard the step before rendered.
  Two flags are then set.
\<close>

theorem two_flags_reachable:
  "flags_set (run (start (backend steady_text_model steady_image_model) None) two_flags_trace)
     = [''waiting_for_ai_edit'', ''waiting_for_image'']"
proof -
  let ?w0 = "start (backend steady_text_model steady_image_model) None"
  have 0: "user_data ?w0 = Map.empty" by (simp add: start_def)
  then have idle: "flags_set ?w0 = []" by (simp add: flags_set_def flag_def)
  have 1: "user_data (handle_message ?w0 (Some (text_message ''Breaking: X happened''))) = Map.empty"
    using message_user_data_idle [OF idle] 0 by simp
  show ?thesis
    by (simp add: run_def two_flags_trace_def callback_user_data press_def 1 flags_set_def flag_def)
qed

text \<open>
  C2 at a concrete input: the flag set, then a text message.
\<close>

theorem image_upload_without_photo_clears_flag_witness:
  "flag (world_a (backend steady_text_model steady_image_model) [''waiting_for_image''])
      ''waiting_for_image''
   \<and> msg_photo (text_message ''hello'') = []
   \<and> sent (handle_message (world_a (backend steady_text_model steady_image_model)
        [''waiting_for_image'']) (Some (text_message ''hello'')))
      = [ReplyText PleaseSendImage None]
   \<and> flags_set (handle_message (world_a (backend steady_text_model steady_image_model)
        [''waiting_for_image'']) (Some (text_message ''hello''))) = []"
  using image_upload_without_photo_clears_flag [of "world_a (backend steady_text_model steady_image_model) [''waiting_for_image'']"
      "text_message ''hello''"]
  by (simp add: world_a_fields flag_def text_message_def)

text \<open>
  Claim C2 as stated fails: with the flag set and a message without a photo, the flag
  is not set any more after the message is handled.
\<close>

theorem awaiting_image_not_kept:
  "flag (world_a (backend steady_text_model steady_image_model) [''waiting_for_image''])
      ''waiting_for_image''
   \<and> msg_photo (text_message ''hello'') = []
   \<and> \<not> flag (handle_message (world_a (backend steady_text_model steady_image_model)
        [''waiting_for_image'']) (Some (text_message ''hello''))) ''waiting_for_image''"
  by (simp add: world_a_fields text_message_def handle_message_def handle_image_upload_def
      world_ops Let_def flag_def)

lemma init_none: "PostStorage_init None = \<lparr>posts = [], storage_file = None\<rparr>"
  by (simp add: PostStorage_init_def load_from_disk_def)

text \<open>
  C3 at a concrete input: two records saved for chat 7 in an empty store.
\<close>

theorem put_replaces_record_witness:
  "get (save (save (store_after None []) 7 post_a) 7 post_b) 7 = Some post_b
   \<and> posts (save (save (store_after None []) 7 post_a) 7 post_b) = [(7, post_b)]"
proof -
  have "posts (save (save (store_after None []) 7 post_a) 7 post_b) = [(7, post_b)]"
    by (simp add: save_def store_after_def init_none)
  with put_replaces_record [of 7 None "[]" 7 post_a post_b] show ?thesis by blast
qed

text \<open>
  C4 at a concrete input: a record of chat 7 saved under 7 and loaded again.
\<close>

theorem save_reload_roundtrip_witness:
  "chat_id post_a = 7
   \<and> get (PostStorage_init (storage_file (save (store_after None []) 7 post_a))) 7 = Some post_a"
proof -
  have c: "chat_id post_a = 7" by (simp add: post_a_def)
  from save_reload_roundtrip [of None "[]" 7 post_a] c show ?thesis by blast
qed

lemma int_of_str_8: "int_of_str ''8'' = Inr 8"
  by (simp add: int_of_str_def int_strip_def is_int_space_def is_digit_def digit_val_def)

lemma load_entry_bad:
  "load_entry ''8'' (Object entry_8_no_image) = Inl (KeyError ''image_base64'')"
  by (simp add: load_entry_def int_of_str_8 entry_8_no_image_def)

lemma str_int_7: "str_int 7 = ''7''"
  by (simp add: str_int_def str_nat.simps digit_char_def)

lemma entry_7_dumped: "entry_7 = dump_entry post_a"
  by (simp add: entry_7_def dump_entry_def post_a_def b2a_values)

lemma load_entry_good: "load_entry ''7'' (Object entry_7) = Inr post_a"
  using load_entry_dump_entry [of 7 post_a] by (simp add: str_int_7 entry_7_dumped) (simp add: post_a_def)

text \<open>
  C5 at a concrete input: a good entry for chat 7, then an entry without its image.
\<close>

theorem corrupt_snapshot_load_witness:
  "load_entries [] [(''7'', Object entry_7)] = ([(7, post_a)], None)
   \<and> load_entry ''8'' (Object entry_8_no_image) = Inl (KeyError ''image_base64'')
   \<and> PostStorage_init (Some (Parsed ([(''7'', Object entry_7)] @ (''8'', Object entry_8_no_image) # [])))
       = \<lparr>posts = [(7, post_a)], storage_file = None\<rparr>"
proof -
  have g: "load_entries [] [(''7'', Object entry_7)] = ([(7, post_a)], None)"
    by (simp add: load_entry_good) (simp add: post_a_def)
  note b = load_entry_bad
  from corrupt_snapshot_load [of "[(''7'', Object entry_7)]" "[(7, post_a)]" "''8''" "Object entry_8_no_image"
      "KeyError ''image_base64''" "[]"] g b
  show ?thesis by blast
qed

text \<open>
  Claim C5 as stated fails: for that snapshot, which the loader treats as corrupt and
  removes, the store is not empty.
\<close>

theorem corrupt_snapshot_store_not_empty:
  "posts (PostStorage_init (Some corrupt_snapshot)) = [(7, post_a)]
   \<and> storage_file (PostStorage_init (Some corrupt_snapshot)) = None"
proof -
  have "load_entries [] [(''7'', Object entry_7), (''8'', Object entry_8_no_image)]
      = ([(7, post_a)], Some (KeyError ''image_base64''))"
    by (simp add: load_entry_good load_entry_bad) (simp add: post_a_def)
  then show ?thesis
    by (simp add: corrupt_snapshot_def PostStorage_init_def load_from_disk_def)
qed

text \<open>
  C6 at a concrete input: a store with a record for chat 7 and none for chat 8.
\<close>

theorem update_absent_and_present_witness:
  "get store_a 8 = None \<and> update_text store_a 8 (Some ''x'') = (False, store_a)
   \<and> update_image store_a 8 [1] = (False, store_a)
   \<and> get store_a 7 = Some post_a
   \<and> fst (update_text store_a 7 (Some ''x''))
   \<and> get (snd (update_text store_a 7 (Some ''x''))) 7 = Some (post_a\<lparr>text' := Some ''x''\<rparr>)
   \<and> fst (update_image store_a 7 [1])
   \<and> get (snd (update_image store_a 7 [1])) 7 = Some (post_a\<lparr>image' := [1]\<rparr>)"
proof -
  have a: "get store_a 8 = None"
    by (simp add: store_a_def store_after_def save_def get_def update_conv' init_none)
  note p = get_store_a
  from update_absent_and_present [of store_a 8 "Some ''x''" "[1]"] update_absent_and_present [of store_a 7 "Some ''x''" "[1]" post_a] a p
  show ?thesis by simp
qed

lemma text_fails_failing:
  "text_fails ((backend failing_text_model im)) i p"
  "text_failure ((backend failing_text_model im)) i p = ApiError ''unavailable''"
  by (simp_all add: text_fails_def text_failure_def backend_def failing_text_model_def)

text \<open>
  C7 at a concrete input: the instruction "shorter" with a text model that is down.
\<close>

theorem ai_edit_backend_exhausted_witness:
  "flag (world_a (backend failing_text_model steady_image_model) [''waiting_for_ai_edit''])
      ''waiting_for_ai_edit''
   \<and> get (storage (world_a (backend failing_text_model steady_image_model) [''waiting_for_ai_edit'']))
        (msg_chat_id (text_message ''shorter'')) = Some post_a
   \<and> sent (handle_message (world_a (backend failing_text_model steady_image_model)
        [''waiting_for_ai_edit'']) (Some (text_message ''shorter'')))
      = [ReplyText AiEditing None, EditProcessing (EditError (ApiError ''unavailable''))]
   \<and> \<not> flag (handle_message (world_a (backend failing_text_model steady_image_model)
        [''waiting_for_ai_edit'']) (Some (text_message ''shorter''))) ''waiting_for_ai_edit''
   \<and> storage (handle_message (world_a (backend failing_text_model steady_image_model)
        [''waiting_for_ai_edit'']) (Some (text_message ''shorter''))) = store_a
   \<and> text_calls (gemini (handle_message (world_a (backend failing_text_model steady_image_model)
        [''waiting_for_ai_edit'']) (Some (text_message ''shorter''))))
      = replicate 3 (EditPrompt (Some ''shorter'') (Some ''Breaking: X happened''))"
proof -
  let ?w = "world_a (backend failing_text_model steady_image_model) [''waiting_for_ai_edit'']"
  let ?m = "text_message ''shorter''"
  have 1: "flag ?w ''waiting_for_ai_edit''" and 2: "\<not> flag ?w ''waiting_for_manual_edit''"
    by (simp_all add: flag_def world_a_fields)
  have 3: "get (storage ?w) (msg_chat_id ?m) = Some post_a"
    by (simp add: world_a_fields text_message_def get_store_a)
  have 4: "text_fails (gemini ?w) i (ai_edit_prompt post_a ?m)" for i
    by (simp add: world_a_fields text_fails_failing)
  have p: "ai_edit_prompt post_a ?m = EditPrompt (Some ''shorter'') (Some ''Breaking: X happened'')"
    by (simp add: ai_edit_prompt_def post_a_def text_message_def truthy_def)
  have t: "text_calls (backend failing_text_model steady_image_model) = []"
    by (simp add: backend_def)
  from ai_edit_backend_exhausted [OF 1 2 3 4 4 4] 1 3 show ?thesis
    by (simp add: world_a_fields text_fails_failing p t)
qed

lemma strip_short: "strip ''Short news.'' = ''Short news.''"
  by (simp add: strip_def is_space_def)

lemma steady_text_attempts:
  "text_model g = steady_text_model \<Longrightarrow> loggable p \<Longrightarrow>
   text_attempts n g p = (Inr ''Short news.'', g\<lparr>text_calls := text_calls g @ [p]\<rparr>)"
  using text_first_answer [of g p "''Short news.''" n]
  by (simp add: steady_text_model_def strip_short)

lemma failing_text_attempts:
  "text_attempts 2 (backend failing_text_model im) p =
     (Inl (ApiError ''unavailable''), (backend failing_text_model im)\<lparr>text_calls := [p, p, p]\<rparr>)"
  using text_attempts_all_fail [of "backend failing_text_model im" p]
  by (simp add: text_fails_failing) (simp add: backend_def)

text \<open>
  Claim C8 as stated fails: with a record in the store and a text model that is down,
  \<^verbatim>\<open>regenerate_image\<close> surfaces the failure to the controller, which reports it, and the
  image of the record is not replaced.
\<close>

theorem regenerate_image_prompt_failure:
  "get (storage (world_a (backend failing_text_model steady_image_model) [])) 7 = Some post_a
   \<and> get (storage (handle_callback (world_a (backend failing_text_model steady_image_model) [])
        (press ''regenerate_image''))) 7 = Some post_a
   \<and> sent (handle_callback (world_a (backend failing_text_model steady_image_model) [])
        (press ''regenerate_image''))
      = [Answer None False, Answer (Some RegeneratingImage) False,
         ReplyText RegeneratingImage None,
         EditProcessing (ImageGenError (ApiError ''unavailable''))]
   \<and> image_calls (gemini (handle_callback (world_a (backend failing_text_model steady_image_model) [])
        (press ''regenerate_image''))) = []"
  by (simp add: handle_callback_def press_def handle_regenerate_image_def world_ops Let_def
      world_a_fields get_store_a generate_image_prompt_def failing_text_attempts)
     (simp add: backend_def)

text \<open>
  C8 at concrete inputs: an image model that is down, an image model that answers,
  and a text model that is down.
\<close>

theorem regenerate_image_outcomes_witness:
  "q_data (press ''regenerate_image'') = ''regenerate_image''
   \<and> get (storage (world_a (backend steady_text_model failing_image_model) []))
        (q_chat_id (press ''regenerate_image'')) = Some post_a
   \<and> get (storage (handle_callback (world_a (backend steady_text_model failing_image_model) [])
        (press ''regenerate_image''))) 7
      = Some (post_a\<lparr>image' := png_signature\<rparr>)
   \<and> get (storage (handle_callback (world_a (backend steady_text_model steady_image_model) [])
        (press ''regenerate_image''))) 7
      = Some (post_a\<lparr>image' := [0x47, 0x49, 0x46]\<rparr>)
   \<and> get (storage (world_a (backend failing_text_model steady_image_model) []))
        (q_chat_id (press ''regenerate_image'')) = Some post_a
   \<and> storage (handle_callback (world_a (backend failing_text_model steady_image_model) [])
        (press ''regenerate_image'')) = store_a"
proof -
  let ?q = "press ''regenerate_image''"
  let ?p = "ImagePromptPrompt (text' post_a)"
  let ?g = "backend steady_text_model failing_image_model"
  let ?w = "world_a ?g []"
  let ?g1 = "?g\<lparr>text_calls := text_calls ?g @ [?p]\<rparr>"
  let ?k = "backend steady_text_model steady_image_model"
  let ?u = "world_a ?k []"
  let ?k1 = "?k\<lparr>text_calls := text_calls ?k @ [?p]\<rparr>"
  let ?h = "backend failing_text_model steady_image_model"
  let ?v = "world_a ?h []"
  let ?h1 = "?h\<lparr>text_calls := text_calls ?h @ [?p, ?p, ?p]\<rparr>"
  have q: "q_data ?q = ''regenerate_image''" "q_chat_id ?q = 7" by (simp_all add: press_def)
  have s: "get (storage ?w) (q_chat_id ?q) = Some post_a"
    "get (storage ?u) (q_chat_id ?q) = Some post_a"
    "get (storage ?v) (q_chat_id ?q) = Some post_a"
    by (simp_all add: world_a_fields q get_store_a)
  have t: "text_model (gemini ?w) (length (text_calls (gemini ?w))) ?p = Returned ''Short news.''
      \<and> ''Short news.'' \<noteq> []"
    "text_model (gemini ?u) (length (text_calls (gemini ?u))) ?p = Returned ''Short news.''
      \<and> ''Short news.'' \<noteq> []"
    by (simp_all add: world_a_fields backend_def steady_text_model_def)
  have pw0: "generate_image_prompt (gemini ?w) (text' post_a)
      = (Inr (strip ''Short news.''),
         (gemini ?w)\<lparr>text_calls := text_calls (gemini ?w) @ [?p]\<rparr>)"
    using regenerate_image_outcomes [OF q(1) s(1), where t = "''Short news.''"] t(1) by blast
  have pu0: "generate_image_prompt (gemini ?u) (text' post_a)
      = (Inr (strip ''Short news.''),
         (gemini ?u)\<lparr>text_calls := text_calls (gemini ?u) @ [?p]\<rparr>)"
    using regenerate_image_outcomes [OF q(1) s(2), where t = "''Short news.''"] t(2) by blast
  have pw: "generate_image_prompt (gemini ?w) (text' post_a) = (Inr ''Short news.'', ?g1)"
    using pw0 by (simp add: strip_short world_a_fields)
  have pu: "generate_image_prompt (gemini ?u) (text' post_a) = (Inr ''Short news.'', ?k1)"
    using pu0 by (simp add: strip_short world_a_fields)
  have f: "image_fails (gemini ?w) i ''Short news.''" for i
    by (simp add: image_fails_def world_a_fields backend_def failing_image_model_def)
  have ph: "create_placeholder_image (gemini ?w) = png_signature"
    by (simp add: create_placeholder_image_def world_a_fields backend_def)
  have im: "image_model (gemini ?u) (length (image_calls (gemini ?u))) ''Short news.''
      = Returned (ImageResponse (Some (DataBytes [0x47, 0x49, 0x46])) None)
      \<and> [0x47, 0x49, 0x46 :: 8 word] \<noteq> []"
    by (simp add: world_a_fields backend_def steady_image_model_def)
  have tf: "text_fails (gemini ?v) i ?p" for i
    by (simp add: world_a_fields text_fails_failing)
  have "get (storage (handle_callback ?w ?q)) (q_chat_id ?q)
      = Some (post_a\<lparr>image' := create_placeholder_image (gemini ?w)\<rparr>)"
    using regenerate_image_outcomes [OF q(1) s(1), where image_prompt = "''Short news.''" and ?g1.0 = ?g1] pw f
    by blast
  then have 1: "get (storage (handle_callback ?w ?q)) 7 = Some (post_a\<lparr>image' := png_signature\<rparr>)"
    by (simp add: q ph)
  have "get (storage (handle_callback ?u ?q)) (q_chat_id ?q)
      = Some (post_a\<lparr>image' := [0x47, 0x49, 0x46]\<rparr>)"
    using regenerate_image_outcomes [OF q(1) s(2), where image_prompt = "''Short news.''" and ?g1.0 = ?k1
        and b = "[0x47, 0x49, 0x46]" and parts_data = None] pu im
    by blast
  then have 2: "get (storage (handle_callback ?u ?q)) 7 = Some (post_a\<lparr>image' := [0x47, 0x49, 0x46]\<rparr>)"
    by (simp add: q)
  have pv: "generate_image_prompt (gemini ?v) (text' post_a)
      = (Inl (text_failure (gemini ?v) (length (text_calls (gemini ?v)) + 2) ?p),
         (gemini ?v)\<lparr>text_calls := text_calls (gemini ?v) @ [?p, ?p, ?p]\<rparr>)"
    using regenerate_image_outcomes [OF q(1) s(3)] tf by blast
  have "storage (handle_callback ?v ?q) = storage ?v"
    using regenerate_image_outcomes [OF q(1) s(3), where e = "text_failure (gemini ?v) (length (text_calls (gemini ?v)) + 2) ?p"
        and ?g1.0 = "(gemini ?v)\<lparr>text_calls := text_calls (gemini ?v) @ [?p, ?p, ?p]\<rparr>"] pv
    by blast
  then have 3: "storage (handle_callback ?v ?q) = store_a"
    by (simp add: world_a_fields)
  from q s 1 2 3 show ?thesis by simp
qed

text \<open>
  Claim C9 at a submission the code gets wrong. \<^verbatim>\<open>update.message.photo\<close> holds the sizes
  of the one photo of a message, and the handler takes the last, the largest. A caption
  with one photo in two sizes and no video does not pass the test
  \<^verbatim>\<open>len(update.message.photo) == 1\<close>: the image model is called and the record gets the
  generated image, not the photo. The sibling \<^verbatim>\<open>_handle_image_upload\<close> stores the
  largest size of the same message.
\<close>

theorem single_photo_in_two_sizes_is_generated_over:
  "msg_photo (photo_message ''Breaking'' [[1], [2, 3]]) = [[1], [2, 3]]
   \<and> \<not> msg_video (photo_message ''Breaking'' [[1], [2, 3]])
   \<and> get (storage (handle_message (start (backend steady_text_model steady_image_model) None)
        (Some (photo_message ''Breaking'' [[1], [2, 3]])))) 7
      = Some \<lparr>text' = Some ''Short news.'', image' = [0x47, 0x49, 0x46], chat_id = 7,
              original_text = Some ''Breaking'', message_id = None\<rparr>
   \<and> image_calls (gemini (handle_message (start (backend steady_text_model steady_image_model) None)
        (Some (photo_message ''Breaking'' [[1], [2, 3]])))) = [''Short news.'']
   \<and> get (storage (handle_message (world_a (backend steady_text_model steady_image_model)
        [''waiting_for_image'']) (Some (photo_message ''Breaking'' [[1], [2, 3]])))) 7
      = Some (post_a\<lparr>image' := [2, 3]\<rparr>)"
proof -
  let ?g = "backend steady_text_model steady_image_model"
  let ?w = "start ?g None"
  let ?m = "photo_message ''Breaking'' [[1], [2, 3]]"
  let ?g1 = "?g\<lparr>text_calls := [ShortenPrompt (Some ''Breaking'')]\<rparr>"
  let ?g2 = "?g\<lparr>text_calls := [ShortenPrompt (Some ''Breaking''), ImagePromptPrompt (Some ''Short news.'')]\<rparr>"
  let ?x = "world_a ?g [''waiting_for_image'']"
  have i: "flags_set ?w = []" by (simp add: flags_set_def flag_def start_def)
  have c: "candidate ?m" by (simp add: candidate_def photo_message_def truthy_def)
  have n: "news_text ?m = Some ''Breaking''" "msg_chat_id ?m = 7"
    by (simp_all add: news_text_def photo_message_def truthy_def)
  have g: "gemini ?w = ?g" by (simp add: start_def)
  have s: "shorten_news ?g (Some ''Breaking'') = (Inr ''Short news.'', ?g1)"
    by (simp add: shorten_news_def steady_text_attempts backend_def loggable_def)
  have p: "generate_image_prompt ?g1 (Some ''Short news.'') = (Inr ''Short news.'', ?g2)"
    by (simp add: generate_image_prompt_def steady_text_attempts backend_def loggable_def)
  have im: "generate_image_sync ?g2 ''Short news.''
      = ([0x47, 0x49, 0x46], ?g2\<lparr>image_calls := [''Short news.'']\<rparr>)"
    using image_first_bytes [of ?g2 "''Short news.''" "[0x47, 0x49, 0x46]" None]
    by (simp add: backend_def steady_image_model_def)
  have ph: "msg_photo ?m = [[1], [2, 3]]" "\<not> msg_video ?m" by (simp_all add: photo_message_def)
  have ph2: "1 < length (msg_photo ?m) \<or> (msg_photo ?m \<noteq> [] \<and> msg_video ?m)"
    by (simp add: photo_message_def)
  note b = news_outcomes [OF i c, of _ "''Short news.''" ?g1 "''Short news.''" ?g2,
      THEN conjunct2, THEN mp]
  have 1: "get (storage (handle_message ?w (Some ?m))) 7
      = Some \<lparr>text' = Some ''Short news.'', image' = [0x47, 0x49, 0x46], chat_id = 7,
              original_text = Some ''Breaking'', message_id = None\<rparr>"
    and 2: "image_calls (gemini (handle_message ?w (Some ?m))) = [''Short news.'']"
    using b ph2 s p im by (simp_all add: n g)
  have f: "flag ?x ''waiting_for_image''" "\<not> flag ?x ''waiting_for_manual_edit''"
    "\<not> flag ?x ''waiting_for_ai_edit''"
    by (simp_all add: flag_def world_a_fields)
  have 3: "get (storage (handle_message ?x (Some ?m))) 7 = Some (post_a\<lparr>image' := [2, 3]\<rparr>)"
    using f
    by (simp add: handle_message_def handle_image_upload_def world_ops Let_def ph n
        world_a_fields get_store_a get_update_image)
  from ph 1 2 3 show ?thesis by simp
qed

end
